theory Spec2Isabelle
  imports Main "HOL-Library.Char_ord" "HOL-Library.List_Lexorder"
begin

section \<open>Data model of medusa/core/ensemble.py\<close>

text \<open>
  The Python exceptions the code can raise. \<open>ValueError\<close> is raised by the constructor
  for an unknown join method and by cobra's \<open>DictList\<close> for a repeated identifier;
  \<open>KeyError\<close> by a pandas column lookup or by cobra's \<open>get_by_id\<close>; \<open>AttributeError\<close> by
  an attribute access on an object that is not a model; the others as named.
\<close>

datatype error =
    ValueError | KeyError | AttributeError | TypeError | AssertionError
  | UnboundLocalError | NameError | ZeroDivisionError

text \<open>
  A cobra reaction, as far as this file reads it: its identifier and its two bounds.
  Bounds are compared by equality only; they are modelled as integers.
\<close>

record reaction =
  rxn_id :: string
  lower_bound :: int
  upper_bound :: int

text \<open>A cobra model: its identifier and its \<open>reactions\<close> DictList, in order.\<close>

record cobra_model =
  model_id :: string
  reactions :: "reaction list"

text \<open>
  The constructor checks no type, so an element of \<open>model_list\<close> is any Python object.
  \<open>CobraModel\<close> stands for an object that offers what the code reads from a model
  (\<open>reactions\<close>, \<open>id\<close>, \<open>copy\<close>): a cobra model, or an object of any other class with
  these attributes, which the code cannot tell from one. \<open>NotAModel\<close> is an object
  that has none of them (a string, a number).
\<close>

datatype pyobj = CobraModel cobra_model | NotAModel

fun get_reactions :: "pyobj \<Rightarrow> error + reaction list" where
  "get_reactions (CobraModel m) = Inr (reactions m)"
| "get_reactions NotAModel = Inl AttributeError"

fun get_id :: "pyobj \<Rightarrow> error + string" where
  "get_id (CobraModel m) = Inr (model_id m)"
| "get_id NotAModel = Inl AttributeError"

text \<open>\<open>DictList.get_by_id\<close>: the entry with that identifier, \<open>KeyError\<close> when there is none.\<close>

definition get_by_id :: "reaction list \<Rightarrow> string \<Rightarrow> error + reaction" where
  "get_by_id rs i = (case find (\<lambda>r. rxn_id r = i) rs of None \<Rightarrow> Inl KeyError | Some r \<Rightarrow> Inr r)"

text \<open>
  A row of the \<open>features\<close> DataFrame: the index label and the columns \<open>lower_bound\<close>,
  \<open>upper_bound\<close>, \<open>type\<close>, \<open>model_identifier\<close>, \<open>feature_count\<close>. A row that comes from
  one model's frame has no \<open>feature_count\<close> yet (NaN after \<open>pd.concat\<close>): \<open>None\<close>.
\<close>

record feature =
  index_label :: string
  f_lower_bound :: int
  f_upper_bound :: int
  f_type :: string
  model_identifier :: string
  feature_count :: "nat option"

text \<open>
  The \<open>states\<close> DataFrame: column labels, and the rows in order, each with its index
  label (a member identifier) and one cell per column; \<open>None\<close> is NaN.
\<close>

record frame =
  columns :: "string list"
  rows :: "(string \<times> bool option list) list"

definition empty_frame :: frame where
  "empty_frame = \<lparr>columns = [], rows = []\<rparr>"

record ensemble =
  ens_id :: string
  base_model :: pyobj
  features :: "feature list"
  states :: frame

section \<open>cobra's Model.add_reactions and _create_base_model\<close>

text \<open>
  \<open>Model.add_reactions\<close> of cobra ignores a reaction whose identifier the model already
  has, builds a DictList of the others (\<open>ValueError\<close> when two of them share an
  identifier) and appends them.
\<close>

definition add_reactions :: "cobra_model \<Rightarrow> reaction list \<Rightarrow> error + cobra_model" where
  "add_reactions m rs =
     (let pruned = filter (\<lambda>r. rxn_id r \<notin> set (map rxn_id (reactions m))) rs
      in if distinct (map rxn_id pruned)
         then Inr (m\<lparr>reactions := reactions m @ pruned\<rparr>)
         else Inl ValueError)"

text \<open>
  The loop of \<open>_create_base_model\<close>: for each model, the reactions whose identifier is not
  yet in the base are copied and added.
\<close>

fun create_base_loop :: "cobra_model \<Rightarrow> pyobj list \<Rightarrow> error + cobra_model" where
  "create_base_loop b [] = Inr b"
| "create_base_loop b (m # ms) =
     (case get_reactions m of
        Inl e \<Rightarrow> Inl e
      | Inr rs \<Rightarrow>
          (let rxns_to_add = filter (\<lambda>r. rxn_id r \<notin> set (map rxn_id (reactions b))) rs
           in case add_reactions b rxns_to_add of
                Inl e \<Rightarrow> Inl e
              | Inr b' \<Rightarrow> create_base_loop b' ms))"

definition create_base_model :: "pyobj list \<Rightarrow> string \<Rightarrow> error + cobra_model" where
  "create_base_model model_list base_id =
     create_base_loop \<lparr>model_id = base_id, reactions = []\<rparr> model_list"

section \<open>Feature identifiers\<close>

text \<open>\<open>astype(str)\<close> on a count: its decimal numeral.\<close>

definition digit_char :: "nat \<Rightarrow> char" where
  "digit_char d = ''0123456789'' ! (d mod 10)"

fun str_of_nat :: "nat \<Rightarrow> string" where
  "str_of_nat n =
     (if n < 10 then [digit_char n] else str_of_nat (n div 10) @ [digit_char (n mod 10)])"

declare str_of_nat.simps [simp del]

definition feature_label :: "string \<Rightarrow> nat \<Rightarrow> string" where
  "feature_label mid c = mid @ ''_'' @ str_of_nat c"

section \<open>set_features_states\<close>

text \<open>
  A Python set of identifiers is a duplicate-free list here; the code only tests it for
  emptiness and membership, so its order is never observed.

  The first loop of \<open>set_features_states\<close>. The running set is intersected with each
  model's identifiers, but an empty running set is overwritten by the next model's.
\<close>

fun reaction_set_loop :: "string list \<Rightarrow> pyobj list \<Rightarrow> error + string list" where
  "reaction_set_loop reaction_set [] = Inr reaction_set"
| "reaction_set_loop reaction_set (m # ms) =
     (case get_reactions m of
        Inl e \<Rightarrow> Inl e
      | Inr rs \<Rightarrow>
          (let model_reactions = remdups (map rxn_id rs)
           in reaction_set_loop
                (if length reaction_set > 0
                 then filter (\<lambda>r. r \<in> set model_reactions) reaction_set
                 else model_reactions) ms))"

text \<open>
  The dictionary \<open>variable_reactions\<close> of one model, in insertion order, as the rows of
  \<open>pd.DataFrame(variable_reactions).T\<close>: one row per identifier, indexed by it.
\<close>

fun variable_reactions :: "reaction list \<Rightarrow> feature list \<Rightarrow> reaction list \<Rightarrow> error + feature list" where
  "variable_reactions all_rs acc [] = Inr acc"
| "variable_reactions all_rs acc (r # rs) =
     (if rxn_id r \<in> set (map index_label acc) then variable_reactions all_rs acc rs
      else case get_by_id all_rs (rxn_id r) of
             Inl e \<Rightarrow> Inl e
           | Inr q \<Rightarrow>
               variable_reactions all_rs
                 (acc @ [\<lparr>index_label = rxn_id r, f_lower_bound = lower_bound q,
                          f_upper_bound = upper_bound q, f_type = ''reaction'',
                          model_identifier = rxn_id r, feature_count = None\<rparr>]) rs)"

text \<open>
  The columns \<open>duplicated\<close> compares: all but \<open>feature_count\<close> (the index is no column).
\<close>

definition same_key :: "feature \<Rightarrow> feature \<Rightarrow> bool" where
  "same_key f g \<longleftrightarrow>
     f_lower_bound f = f_lower_bound g \<and> f_upper_bound f = f_upper_bound g \<and>
     f_type f = f_type g \<and> model_identifier f = model_identifier g"

text \<open>\<open>duplicated(..)\<close>, keep first: a row is marked when an earlier row has its key.\<close>

fun duplicated_first :: "feature list \<Rightarrow> feature list \<Rightarrow> bool list" where
  "duplicated_first seen [] = []"
| "duplicated_first seen (f # fs) =
     list_ex (\<lambda>g. same_key g f) seen # duplicated_first (seen @ [f]) fs"

text \<open>\<open>duplicated(.., keep=False)\<close>: a row is marked when any other row has its key.\<close>

fun duplicated_any :: "feature list \<Rightarrow> feature list \<Rightarrow> bool list" where
  "duplicated_any seen [] = []"
| "duplicated_any seen (f # fs) =
     list_ex (\<lambda>g. same_key g f) (seen @ fs) # duplicated_any (seen @ [f]) fs"

text \<open>\<open>groupby('model_identifier').cumcount()\<close>: the number of earlier rows of the group.\<close>

fun cumcount :: "feature list \<Rightarrow> feature list \<Rightarrow> nat list" where
  "cumcount seen [] = []"
| "cumcount seen (f # fs) =
     length (filter (\<lambda>g. model_identifier g = model_identifier f) seen)
       # cumcount (seen @ [f]) fs"

definition set_count :: "feature \<Rightarrow> nat \<Rightarrow> feature" where
  "set_count f c =
     f\<lparr>feature_count := Some c, index_label := feature_label (model_identifier f) c\<rparr>"

text \<open>A cell of a row under a column label; NaN when the row's frame has no such column.\<close>

definition cell_at :: "string list \<Rightarrow> bool option list \<Rightarrow> string \<Rightarrow> bool option" where
  "cell_at cols cells c = (case map_of (zip cols cells) c of None \<Rightarrow> None | Some v \<Rightarrow> v)"

text \<open>
  \<open>pd.concat([a, b])\<close>: the rows of both, over the union of the columns, which
  stay in their order of appearance (pandas does not sort them by default). A row
  is read by label; the labels of a feature table are shown below to be distinct.
\<close>

definition concat_frames :: "frame \<Rightarrow> frame \<Rightarrow> frame" where
  "concat_frames a b =
     (let cols = columns a @ filter (\<lambda>c. c \<notin> set (columns a)) (columns b)
      in \<lparr>columns = cols,
          rows = map (\<lambda>(l, cells). (l, map (cell_at (columns a) cells) cols)) (rows a)
               @ map (\<lambda>(l, cells). (l, map (cell_at (columns b) cells) cols)) (rows b)\<rparr>)"

text \<open>\<open>fillna(False)\<close>: every NaN cell becomes false.\<close>

definition fillna_False :: "frame \<Rightarrow> frame" where
  "fillna_False a =
     a\<lparr>rows := map (\<lambda>(l, cells). (l, map (\<lambda>v. case v of None \<Rightarrow> Some False | Some x \<Rightarrow> Some x) cells))
                  (rows a)\<rparr>"

text \<open>
  \<open>a.join(b, how='outer')\<close> for a one-row frame \<open>b\<close> (index \<open>mid\<close>, every cell true):
  \<open>ValueError\<close> when a column label is in both; otherwise the union of the indices,
  sorted, and NaN where a row has no value.
\<close>

definition join_outer :: "frame \<Rightarrow> string \<Rightarrow> string list \<Rightarrow> error + frame" where
  "join_outer a mid cols =
     (if list_ex (\<lambda>c. c \<in> set (columns a)) cols then Inl ValueError
      else Inr \<lparr>columns = columns a @ cols,
                rows = sort_key fst
                  (map (\<lambda>(l, cells). (l, cells @ replicate (length cols) (if l = mid then Some True else None)))
                       (rows a)
                   @ (if mid \<in> set (map fst (rows a)) then []
                      else [(mid, replicate (length (columns a)) None
                                  @ replicate (length cols) (Some True))]))\<rparr>)"

text \<open>Assigning \<open>frame.columns\<close>: \<open>ValueError\<close> when the number of labels differs.\<close>

definition set_columns :: "frame \<Rightarrow> string list \<Rightarrow> error + frame" where
  "set_columns a labels =
     (if length labels = length (columns a) then Inr (a\<lparr>columns := labels\<rparr>) else Inl ValueError)"

text \<open>
  One pass of the second loop of \<open>set_features_states\<close>, for one model. When the
  ensemble has no feature yet, the model's frame becomes the feature table; a frame
  without rows has no column \<open>model_identifier\<close>, and reading it raises \<open>KeyError\<close>.
  Otherwise the model's rows are concatenated to the table, duplicates dropped, counts
  and labels reassigned, and the model's row of states appended.
\<close>

definition set_features_step :: "string list \<Rightarrow> ensemble \<Rightarrow> pyobj \<Rightarrow> error + ensemble" where
  "set_features_step reaction_list ensemble model =
     (case get_reactions model of
        Inl e \<Rightarrow> Inl e
      | Inr rs \<Rightarrow>
          (let reactions_different = filter (\<lambda>r. rxn_id r \<notin> set reaction_list) rs
           in case variable_reactions rs [] reactions_different of
                Inl e \<Rightarrow> Inl e
              | Inr feats \<Rightarrow>
                  if length (features ensemble) > 0 then
                    (let new_df = features ensemble @ feats;
                         duplicate_features = duplicated_first [] new_df;
                         in_new_model = duplicated_any [] new_df;
                         kept = map snd (filter (\<lambda>(d, x). \<not> d)
                                   (zip duplicate_features (zip new_df in_new_model)));
                         counted = map2 (\<lambda>(f, b) c. (set_count f c, b)) kept
                                     (cumcount [] (map fst kept));
                         old_labels = map index_label (features ensemble);
                         marked = map (\<lambda>(f, b). (f, index_label f \<notin> set old_labels \<or> b)) counted
                     in case get_id model of
                          Inl e \<Rightarrow> Inl e
                        | Inr mid \<Rightarrow>
                            (let model_states =
                                   \<lparr>columns = map (\<lambda>(f, b). index_label f) marked,
                                    rows = [(mid, map (\<lambda>(f, b). Some b) marked)]\<rparr>
                             in Inr (ensemble\<lparr>features := map fst marked,
                                       states := fillna_False
                                                   (concat_frames (states ensemble) model_states)\<rparr>)))
                  else if feats = [] then Inl KeyError
                  else
                    (let feats0 = map (\<lambda>f. set_count f 0) feats
                     in case get_id model of
                          Inl e \<Rightarrow> Inl e
                        | Inr mid \<Rightarrow>
                            (case join_outer (states ensemble) mid (map index_label feats) of
                               Inl e \<Rightarrow> Inl e
                             | Inr joined \<Rightarrow>
                                 (case set_columns joined (map index_label feats0) of
                                    Inl e \<Rightarrow> Inl e
                                  | Inr st \<Rightarrow> Inr (ensemble\<lparr>features := feats0, states := st\<rparr>))))))"

fun set_features_loop :: "string list \<Rightarrow> ensemble \<Rightarrow> pyobj list \<Rightarrow> error + ensemble" where
  "set_features_loop reaction_list ensemble [] = Inr ensemble"
| "set_features_loop reaction_list ensemble (m # ms) =
     (case set_features_step reaction_list ensemble m of
        Inl e \<Rightarrow> Inl e
      | Inr ensemble' \<Rightarrow> set_features_loop reaction_list ensemble' ms)"

definition set_features_states :: "ensemble \<Rightarrow> pyobj list \<Rightarrow> error + ensemble" where
  "set_features_states ensemble model_list =
     (if length model_list = 1
      then Inr (ensemble\<lparr>features := [], states := empty_frame, base_model := model_list ! 0\<rparr>)
      else case reaction_set_loop [] model_list of
             Inl e \<Rightarrow> Inl e
           | Inr reaction_list \<Rightarrow> set_features_loop reaction_list ensemble model_list)"

section \<open>The constructor with its default join method\<close>

definition empty_model :: "string \<Rightarrow> pyobj" where
  "empty_model i = CobraModel \<lparr>model_id = i, reactions = []\<rparr>"

text \<open>
  \<open>Ensemble(base_id, model_list)\<close> with \<open>join_method\<close> left at \<open>"concurrent"\<close>: the call
  \<open>update_features_states\<close> makes, and the concurrent branch of the constructor.
  \<open>model_list\<close> is \<open>None\<close> or a list.
\<close>

definition construct_concurrent :: "string \<Rightarrow> pyobj list option \<Rightarrow> error + ensemble" where
  "construct_concurrent base_id model_list =
     (let self = \<lparr>ens_id = base_id, base_model = empty_model (base_id @ ''_base_model''),
                  features = [], states = empty_frame\<rparr>
      in case model_list of
           None \<Rightarrow> Inr self
         | Some ml \<Rightarrow>
             if ml = [] then Inr self
             else case create_base_model ml (base_id @ ''_base_model'') of
                    Inl e \<Rightarrow> Inl e
                  | Inr b \<Rightarrow> set_features_states (self\<lparr>base_model := CobraModel b\<rparr>) ml)"

section \<open>Reading a feature table by column name\<close>

definition feature_columns :: "string list" where
  "feature_columns =
     [''lower_bound'', ''upper_bound'', ''type'', ''model_identifier'', ''feature_count'']"

text \<open>
  \<open>table[name]\<close>: the table \<open>pd.DataFrame()\<close> has no column at all, a table with rows
  has the five columns above. A correctly spelled column of a row is read through
  its record field below; \<open>getitem\<close> is the general lookup, \<open>KeyError\<close> for a label
  that is no column.
\<close>

definition has_column :: "feature list \<Rightarrow> string \<Rightarrow> bool" where
  "has_column table name \<longleftrightarrow> table \<noteq> [] \<and> name \<in> set feature_columns"

datatype cell = Num int | Str string | Count "nat option"

definition getitem :: "feature \<Rightarrow> string \<Rightarrow> error + cell" where
  "getitem f name =
     (if name = ''lower_bound'' then Inr (Num (f_lower_bound f))
      else if name = ''upper_bound'' then Inr (Num (f_upper_bound f))
      else if name = ''type'' then Inr (Str (f_type f))
      else if name = ''model_identifier'' then Inr (Str (model_identifier f))
      else if name = ''feature_count'' then Inr (Count (feature_count f))
      else Inl KeyError)"

section \<open>_find_feature_from_base and _resolve_from_both_bases\<close>

text \<open>
  \<open>_find_feature_from_base\<close> computes \<open>found\<close> and ends without a \<open>return\<close>: a call that
  raises nothing evaluates to Python's \<open>None\<close>, which is \<open>None\<close> here; \<open>Some b\<close> would be
  a returned boolean.
\<close>

definition find_feature_from_base :: "feature \<Rightarrow> ensemble \<Rightarrow> error + bool option" where
  "find_feature_from_base feature ensemble =
     (if f_type feature = ''reaction'' then
        (case get_reactions (base_model ensemble) of
           Inl e \<Rightarrow> Inl e
         | Inr rs \<Rightarrow>
             (case get_by_id rs (model_identifier feature) of
                Inl e \<Rightarrow> Inl e
              | Inr r \<Rightarrow>
                  (let found = (f_lower_bound feature = lower_bound r
                                \<and> f_upper_bound feature = upper_bound r)
                   in Inr None)))
      else Inl AssertionError)"

text \<open>Python's truth value of what \<open>_find_feature_from_base\<close> gave.\<close>

definition truthy :: "bool option \<Rightarrow> bool" where
  "truthy v \<longleftrightarrow> v = Some True"

text \<open>
  The loop of the branch \<open>features_in == 'old'\<close>. The local \<open>found\<close> is unbound (\<open>None\<close>)
  until the first pass. \<open>setitem\<close> is pandas' \<open>updated_states[rows, column] = True\<close>
  with a tuple key, taken as a parameter.
\<close>

fun resolve_old_loop ::
  "(frame \<Rightarrow> string list \<Rightarrow> string \<Rightarrow> error + frame) \<Rightarrow> ensemble \<Rightarrow> feature list \<Rightarrow> frame
     \<Rightarrow> bool option option \<Rightarrow> error + frame \<times> bool option option" where
  "resolve_old_loop setitem new_ensemble [] updated_states found = Inr (updated_states, found)"
| "resolve_old_loop setitem new_ensemble (feature # rest) updated_states found =
     (case find_feature_from_base feature new_ensemble of
        Inl e \<Rightarrow> Inl e
      | Inr v \<Rightarrow>
          if truthy v then
            (case setitem updated_states (map fst (rows (states new_ensemble))) (index_label feature) of
               Inl e \<Rightarrow> Inl e
             | Inr us \<Rightarrow> Inr (us, Some v))
          else resolve_old_loop setitem new_ensemble rest updated_states (Some v))"

text \<open>
  \<open>_resolve_from_both_bases\<close>; the result is \<open>updated_states\<close> as the caller sees it
  afterwards. After the loop of the branch \<open>'old'\<close>, an unbound \<open>found\<close> raises
  \<open>UnboundLocalError\<close>; a false one leads to \<open>feature['model_identifer']\<close>, a label that
  is no column, and, were it one, to the same label looked up in \<open>updated_features\<close>.
  The branches \<open>'new'\<close> and \<open>'both'\<close> read the local \<open>feature\<close> before binding it.
\<close>

definition resolve_from_both_bases ::
  "(frame \<Rightarrow> string list \<Rightarrow> string \<Rightarrow> error + frame) \<Rightarrow> feature list \<Rightarrow> ensemble \<Rightarrow> ensemble
     \<Rightarrow> feature list \<Rightarrow> frame \<Rightarrow> string \<Rightarrow> error + frame" where
  "resolve_from_both_bases setitem features_only_in new_ensemble old_ensemble
       updated_features updated_states features_in =
     (if features_in = ''old'' then
        (case resolve_old_loop setitem new_ensemble features_only_in updated_states None of
           Inl e \<Rightarrow> Inl e
         | Inr (us, found) \<Rightarrow>
             (case found of
                None \<Rightarrow> Inl UnboundLocalError
              | Some v \<Rightarrow>
                  if \<not> truthy v then
                    (let feature = hd features_only_in
                     in case getitem feature ''model_identifer'' of
                          Inl e \<Rightarrow> Inl e
                        | Inr mid \<Rightarrow>
                            if f_type feature = ''reaction'' then
                              (case get_reactions (base_model new_ensemble) of
                                 Inl e \<Rightarrow> Inl e
                               | Inr rs \<Rightarrow>
                                   (case get_by_id rs (model_identifier feature) of
                                      Inl e \<Rightarrow> Inl e
                                    | Inr r \<Rightarrow> Inl KeyError))
                            else Inl AssertionError)
                  else Inr us))
      else if features_in = ''new'' then Inl UnboundLocalError
      else if features_in = ''both'' then
        (if features_only_in = [] then Inr updated_states else Inl UnboundLocalError)
      else Inr updated_states)"

section \<open>update_features_states\<close>

text \<open>
  The body of the loop over \<open>base_rxns_in_both\<close> raises on every path: line 310 reads
  the column \<open>'model_identifer'\<close> of the old table; were it there, line 312 reads it in
  the new table when that has rows, line 314 names the undefined \<open>all_features\<close>, and
  with an empty new table line 319 calls \<open>pd.concat\<close> on two frames instead of a list.
\<close>

definition update_body :: "ensemble \<Rightarrow> ensemble \<Rightarrow> string \<Rightarrow> error" where
  "update_body old_ensemble new_ensemble reaction =
     (if \<not> has_column (features old_ensemble) ''model_identifer'' then KeyError
      else if length (features new_ensemble) > 0 then
        (if \<not> has_column (features new_ensemble) ''model_identifer'' then KeyError
         else NameError)
      else TypeError)"

text \<open>
  \<open>update_features_states\<close> mutates \<open>old_ensemble\<close>: the result is the exception raised, if
  any, and the target ensemble as the call leaves it. \<open>model_iter\<close> is
  \<open>[rxn.id for rxn in model]\<close>, iteration over a cobra model, which belongs to cobra and
  is a parameter here. The local copies \<open>updated_features\<close>, \<open>updated_states\<close> and
  \<open>updated_base\<close> are never assigned back.
\<close>

definition update_features_states ::
  "(pyobj \<Rightarrow> error + string list) \<Rightarrow> ensemble \<Rightarrow> pyobj list \<Rightarrow> error option \<times> ensemble" where
  "update_features_states model_iter old_ensemble model_list =
     (if length (features old_ensemble) < 1 then
        (case construct_concurrent (ens_id old_ensemble) (Some (base_model old_ensemble # model_list)) of
           Inl e \<Rightarrow> (Some e, old_ensemble)
         | Inr new_ensemble \<Rightarrow>
             (None, old_ensemble\<lparr>base_model := base_model new_ensemble,
                                 features := features new_ensemble,
                                 states := states new_ensemble\<rparr>))
      else
        (case construct_concurrent ''new_models'' (Some model_list) of
           Inl e \<Rightarrow> (Some e, old_ensemble)
         | Inr new_ensemble \<Rightarrow>
             (case base_model old_ensemble of
                NotAModel \<Rightarrow> (Some AttributeError, old_ensemble)
              | CobraModel updated_base \<Rightarrow>
                  (case model_iter (base_model old_ensemble) of
                     Inl e \<Rightarrow> (Some e, old_ensemble)
                   | Inr old_reactions \<Rightarrow>
                       (case model_iter (base_model new_ensemble) of
                          Inl e \<Rightarrow> (Some e, old_ensemble)
                        | Inr new_reactions \<Rightarrow>
                            (let base_rxns_in_both =
                                   filter (\<lambda>r. r \<in> set new_reactions) (remdups old_reactions)
                             in case base_rxns_in_both of
                                  [] \<Rightarrow> (None, old_ensemble)
                                | reaction # rest \<Rightarrow>
                                    (Some (update_body old_ensemble new_ensemble reaction),
                                     old_ensemble)))))))"

section \<open>Ensemble.__init__\<close>

text \<open>Python's \<open>xs[a:b]\<close> for indices that are not negative.\<close>

definition slice :: "'a list \<Rightarrow> nat \<Rightarrow> nat \<Rightarrow> 'a list" where
  "slice xs a b = take (b - a) (drop a xs)"

text \<open>The loop \<open>for i in range(steps)\<close> of the iterative branch.\<close>

fun iterative_loop ::
  "(pyobj \<Rightarrow> error + string list) \<Rightarrow> pyobj list \<Rightarrow> nat \<Rightarrow> nat list \<Rightarrow> ensemble \<Rightarrow> error + ensemble" where
  "iterative_loop model_iter model_list join_size [] self = Inr self"
| "iterative_loop model_iter model_list join_size (i # is) self =
     (let model_group = slice model_list ((i + 1) * join_size) (i + 2 * join_size)
      in case update_features_states model_iter self model_group of
           (Some e, self') \<Rightarrow> Inl e
         | (None, self') \<Rightarrow> iterative_loop model_iter model_list join_size is self')"

text \<open>
  The constructor (the second \<open>__init__\<close> of the class, which replaces the first).
  \<open>join_size\<close> is a count of models, a natural number here.
\<close>

definition Ensemble_init ::
  "(pyobj \<Rightarrow> error + string list) \<Rightarrow> string \<Rightarrow> pyobj list option \<Rightarrow> string \<Rightarrow> nat
     \<Rightarrow> error + ensemble" where
  "Ensemble_init model_iter base_id model_list join_method join_size =
     (if join_method \<notin> set [''concurrent'', ''iterative''] then Inl ValueError
      else if join_method = ''concurrent'' then construct_concurrent base_id model_list
      else
        (let self = \<lparr>ens_id = base_id, base_model = empty_model (base_id @ ''_base_model''),
                     features = [], states = empty_frame\<rparr>
         in case model_list of
              None \<Rightarrow> Inr self
            | Some ml \<Rightarrow>
                if ml = [] then Inr self
                else
                  (case set_features_states self (slice ml 0 join_size) of
                     Inl e \<Rightarrow> Inl e
                   | Inr self1 \<Rightarrow>
                       if join_size = 0 then Inl ZeroDivisionError
                       else
                         (let remainder = length ml mod join_size;
                              steps = length ml div join_size
                          in case iterative_loop model_iter ml join_size [0..<steps] self1 of
                               Inl e \<Rightarrow> Inl e
                             | Inr self2 \<Rightarrow>
                                 if remainder > 0 then
                                   (case update_features_states model_iter self2
                                           (drop (length ml - remainder) ml) of
                                      (Some e, self3) \<Rightarrow> Inl e
                                    | (None, self3) \<Rightarrow> Inr self3)
                                 else Inr self2))))"

section \<open>Observations used to state the properties\<close>

text \<open>The reaction identifiers of a model; an object that is no model has none.\<close>

definition reaction_ids :: "pyobj \<Rightarrow> string set" where
  "reaction_ids m = (case m of CobraModel c \<Rightarrow> set (map rxn_id (reactions c)) | NotAModel \<Rightarrow> {})"

text \<open>A cobra model as cobra builds it: no identifier twice in its DictList.\<close>

definition well_formed :: "pyobj \<Rightarrow> bool" where
  "well_formed m = (case m of CobraModel c \<Rightarrow> distinct (map rxn_id (reactions c)) | NotAModel \<Rightarrow> False)"

text \<open>The columns that identify a feature: bounds, type and component.\<close>

definition key_of :: "feature \<Rightarrow> int \<times> int \<times> string \<times> string" where
  "key_of f = (f_lower_bound f, f_upper_bound f, f_type f, model_identifier f)"

text \<open>
  The variants a model contributes under a given common list: for each of its
  reactions outside the list, the bounds \<open>get_by_id\<close> reads under that identifier.
\<close>

definition model_keys :: "string list \<Rightarrow> pyobj \<Rightarrow> (int \<times> int \<times> string \<times> string) list" where
  "model_keys reaction_list m =
     (case m of
        NotAModel \<Rightarrow> []
      | CobraModel c \<Rightarrow>
          concat (map (\<lambda>r. case find (\<lambda>x. rxn_id x = rxn_id r) (reactions c) of
                              None \<Rightarrow> []
                            | Some q \<Rightarrow> [(lower_bound q, upper_bound q, ''reaction'', rxn_id r)])
                      (filter (\<lambda>r. rxn_id r \<notin> set reaction_list) (reactions c))))"

definition member_id :: "pyobj \<Rightarrow> string" where
  "member_id m = (case m of CobraModel c \<Rightarrow> model_id c | NotAModel \<Rightarrow> [])"

text \<open>A row of one model's frame, as \<open>variable_reactions\<close> builds it.\<close>

definition row_ok :: "reaction list \<Rightarrow> string list \<Rightarrow> feature \<Rightarrow> bool" where
  "row_ok all_rs rl f \<longleftrightarrow>
     model_identifier f = index_label f \<and> f_type f = ''reaction'' \<and> feature_count f = None
     \<and> index_label f \<notin> set rl
     \<and> (\<exists>q. find (\<lambda>x. rxn_id x = index_label f) all_rs = Some q
            \<and> f_lower_bound f = lower_bound q \<and> f_upper_bound f = upper_bound q)"

text \<open>
  The rows a model adds to a feature table: those of its rows whose key the table
  lacks, numbered after the rows of the table.
\<close>

definition new_rows :: "feature list \<Rightarrow> feature list \<Rightarrow> feature list" where
  "new_rows old feats =
     (let newf = filter (\<lambda>f. key_of f \<notin> key_of ` set old) feats
      in map2 set_count newf (cumcount old newf))"

text \<open>Counts and labels of a table are those \<open>cumcount\<close> assigns.\<close>

definition relabelled :: "feature list \<Rightarrow> bool" where
  "relabelled fs \<longleftrightarrow> map2 set_count fs (cumcount [] fs) = fs"

text \<open>
  The row of states of a member: true exactly at the features that are among the
  member's own variants.
\<close>

definition member_row :: "string list \<Rightarrow> feature list \<Rightarrow> pyobj \<Rightarrow> string \<times> bool option list" where
  "member_row reaction_list fs m =
     (member_id m, map (\<lambda>f. Some (key_of f \<in> set (model_keys reaction_list m))) fs)"

text \<open>
  The state of an ensemble built from the models \<open>ms\<close>: one feature per variant of
  some model, labelled by component and count, a column of states per feature and
  a row per model.
\<close>

definition consistent :: "string list \<Rightarrow> pyobj list \<Rightarrow> ensemble \<Rightarrow> bool" where
  "consistent reaction_list ms e \<longleftrightarrow>
     distinct (map key_of (features e))
     \<and> key_of ` set (features e) = (\<Union>m\<in>set ms. set (model_keys reaction_list m))
     \<and> relabelled (features e)
     \<and> columns (states e) = map index_label (features e)
     \<and> rows (states e) = map (member_row reaction_list (features e)) ms"

text \<open>
  The features that a row of states marks true, and mutual exclusivity: the columns
  are the features, and no row marks two features of the same component.
\<close>

definition true_features :: "feature list \<Rightarrow> bool option list \<Rightarrow> feature list" where
  "true_features fs cells = map fst (filter (\<lambda>(f, c). c = Some True) (zip fs cells))"

definition states_exclusive :: "ensemble \<Rightarrow> bool" where
  "states_exclusive e \<longleftrightarrow>
     columns (states e) = map index_label (features e)
     \<and> distinct (columns (states e))
     \<and> list_all (\<lambda>(l, cells). length cells = length (features e)
                   \<and> distinct (map model_identifier (true_features (features e) cells)))
          (rows (states e))"

section \<open>Example inputs\<close>

text \<open>
  cobra's \<open>Model\<close> defines neither \<open>__iter__\<close> nor \<open>__getitem__\<close>: iterating over one
  raises \<open>TypeError\<close>. The general results below hold for any \<open>model_iter\<close>.
\<close>

definition cobra_iter :: "pyobj \<Rightarrow> error + string list" where
  "cobra_iter m = Inl TypeError"

definition single_reaction_model :: "string \<Rightarrow> string \<Rightarrow> int \<Rightarrow> int \<Rightarrow> pyobj" where
  "single_reaction_model name r lb ub =
     CobraModel \<lparr>model_id = name,
                 reactions = [\<lparr>rxn_id = r, lower_bound = lb, upper_bound = ub\<rparr>]\<rparr>"

definition modelA :: pyobj where
  "modelA = single_reaction_model ''A'' ''R1'' 0 10"

definition modelB :: pyobj where
  "modelB = single_reaction_model ''B'' ''R2'' 0 10"

definition modelC :: pyobj where
  "modelC = single_reaction_model ''C'' ''R3'' 0 20"

text \<open>The ensemble that the constructor builds from \<open>[modelA, modelB]\<close>.\<close>

definition ensemble_AB :: ensemble where
  "ensemble_AB =
     \<lparr>ens_id = ''ens'',
      base_model = CobraModel \<lparr>model_id = ''ens_base_model'',
                     reactions = [\<lparr>rxn_id = ''R1'', lower_bound = 0, upper_bound = 10\<rparr>,
                                  \<lparr>rxn_id = ''R2'', lower_bound = 0, upper_bound = 10\<rparr>]\<rparr>,
      features = [\<lparr>index_label = ''R1_0'', f_lower_bound = 0, f_upper_bound = 10,
                    f_type = ''reaction'', model_identifier = ''R1'', feature_count = Some 0\<rparr>,
                  \<lparr>index_label = ''R2_0'', f_lower_bound = 0, f_upper_bound = 10,
                    f_type = ''reaction'', model_identifier = ''R2'', feature_count = Some 0\<rparr>],
      states = \<lparr>columns = [''R1_0'', ''R2_0''],
                rows = [(''A'', [Some True, Some False]), (''B'', [Some False, Some True])]\<rparr>\<rparr>"

text \<open>
  The ensemble that the constructor builds from \<open>[modelA, modelB, modelC]\<close> in one
  pass; a new ensemble of the single model \<open>modelA\<close>; the first feature of \<open>ensemble_AB\<close>.
\<close>

definition ensemble_ABC :: ensemble where
  "ensemble_ABC =
     \<lparr>ens_id = ''ens'',
      base_model = CobraModel \<lparr>model_id = ''ens_base_model'',
                     reactions = [\<lparr>rxn_id = ''R1'', lower_bound = 0, upper_bound = 10\<rparr>,
                                  \<lparr>rxn_id = ''R2'', lower_bound = 0, upper_bound = 10\<rparr>,
                                  \<lparr>rxn_id = ''R3'', lower_bound = 0, upper_bound = 20\<rparr>]\<rparr>,
      features = [\<lparr>index_label = ''R1_0'', f_lower_bound = 0, f_upper_bound = 10,
                    f_type = ''reaction'', model_identifier = ''R1'', feature_count = Some 0\<rparr>,
                  \<lparr>index_label = ''R2_0'', f_lower_bound = 0, f_upper_bound = 10,
                    f_type = ''reaction'', model_identifier = ''R2'', feature_count = Some 0\<rparr>],
      states = \<lparr>columns = [''R1_0'', ''R2_0''],
                rows = [(''A'', [Some True, Some False]), (''B'', [Some False, Some True]),
                        (''C'', [Some False, Some False])]\<rparr>\<rparr>"

definition new_A :: ensemble where
  "new_A = \<lparr>ens_id = ''new_models'', base_model = modelA, features = [], states = empty_frame\<rparr>"

definition feature_R1_0 :: feature where
  "feature_R1_0 = \<lparr>index_label = ''R1_0'', f_lower_bound = 0, f_upper_bound = 10,
                    f_type = ''reaction'', model_identifier = ''R1'', feature_count = Some 0\<rparr>"

text \<open>
  Three models of the single reaction \<open>R1\<close> with bounds (0,10), (0,10), (0,20);
  three models that share \<open>R2\<close> and differ in their other reactions, with the
  ensemble built from them; an ensemble whose member \<open>X\<close> is marked for two variants
  of \<open>R1\<close>, before and after \<open>set_features_states\<close> with \<open>modelB\<close> and \<open>modelC\<close>.
\<close>

definition scenario_m1 :: pyobj where
  "scenario_m1 = single_reaction_model ''m1'' ''R1'' 0 10"

definition scenario_m2 :: pyobj where
  "scenario_m2 = single_reaction_model ''m2'' ''R1'' 0 10"

definition scenario_m3 :: pyobj where
  "scenario_m3 = single_reaction_model ''m3'' ''R1'' 0 20"

definition modelX :: pyobj where
  "modelX = CobraModel \<lparr>model_id = ''X'',
      reactions = [\<lparr>rxn_id = ''R1'', lower_bound = 0, upper_bound = 10\<rparr>,
                   \<lparr>rxn_id = ''R2'', lower_bound = 0, upper_bound = 5\<rparr>]\<rparr>"

definition modelY :: pyobj where
  "modelY = CobraModel \<lparr>model_id = ''Y'',
      reactions = [\<lparr>rxn_id = ''R2'', lower_bound = 0, upper_bound = 10\<rparr>,
                   \<lparr>rxn_id = ''R3'', lower_bound = 0, upper_bound = 10\<rparr>]\<rparr>"

definition modelZ :: pyobj where
  "modelZ = CobraModel \<lparr>model_id = ''Z'',
      reactions = [\<lparr>rxn_id = ''R2'', lower_bound = 0, upper_bound = 5\<rparr>,
                   \<lparr>rxn_id = ''R4'', lower_bound = 0, upper_bound = 20\<rparr>,
                   \<lparr>rxn_id = ''R3'', lower_bound = 1, upper_bound = 10\<rparr>]\<rparr>"

definition ensemble_XYZ :: ensemble where
  "ensemble_XYZ =
     \<lparr>ens_id = ''ens'',
      base_model = CobraModel \<lparr>model_id = ''ens_base_model'',
                     reactions = [\<lparr>rxn_id = ''R1'', lower_bound = 0, upper_bound = 10\<rparr>,
                                  \<lparr>rxn_id = ''R2'', lower_bound = 0, upper_bound = 5\<rparr>,
                                  \<lparr>rxn_id = ''R3'', lower_bound = 0, upper_bound = 10\<rparr>,
                                  \<lparr>rxn_id = ''R4'', lower_bound = 0, upper_bound = 20\<rparr>]\<rparr>,
      features = [\<lparr>index_label = ''R1_0'', f_lower_bound = 0, f_upper_bound = 10,
                    f_type = ''reaction'', model_identifier = ''R1'', feature_count = Some 0\<rparr>,
                  \<lparr>index_label = ''R3_0'', f_lower_bound = 0, f_upper_bound = 10,
                    f_type = ''reaction'', model_identifier = ''R3'', feature_count = Some 0\<rparr>,
                  \<lparr>index_label = ''R4_0'', f_lower_bound = 0, f_upper_bound = 20,
                    f_type = ''reaction'', model_identifier = ''R4'', feature_count = Some 0\<rparr>,
                  \<lparr>index_label = ''R3_1'', f_lower_bound = 1, f_upper_bound = 10,
                    f_type = ''reaction'', model_identifier = ''R3'', feature_count = Some 1\<rparr>],
      states = \<lparr>columns = [''R1_0'', ''R3_0'', ''R4_0'', ''R3_1''],
                rows = [(''X'', [Some True, Some False, Some False, Some False]),
                        (''Y'', [Some False, Some True, Some False, Some False]),
                        (''Z'', [Some False, Some False, Some True, Some True])]\<rparr>\<rparr>"

definition ensemble_two_variants :: ensemble where
  "ensemble_two_variants =
     \<lparr>ens_id = ''ens'', base_model = modelA,
      features = [\<lparr>index_label = ''R1_0'', f_lower_bound = 0, f_upper_bound = 10,
                    f_type = ''reaction'', model_identifier = ''R1'', feature_count = Some 0\<rparr>,
                  \<lparr>index_label = ''R1_1'', f_lower_bound = 0, f_upper_bound = 20,
                    f_type = ''reaction'', model_identifier = ''R1'', feature_count = Some 1\<rparr>],
      states = \<lparr>columns = [''R1_0'', ''R1_1''], rows = [(''X'', [Some True, Some True])]\<rparr>\<rparr>"

definition ensemble_two_variants_BC :: ensemble where
  "ensemble_two_variants_BC =
     \<lparr>ens_id = ''ens'', base_model = modelA,
      features = [\<lparr>index_label = ''R1_0'', f_lower_bound = 0, f_upper_bound = 10,
                    f_type = ''reaction'', model_identifier = ''R1'', feature_count = Some 0\<rparr>,
                  \<lparr>index_label = ''R1_1'', f_lower_bound = 0, f_upper_bound = 20,
                    f_type = ''reaction'', model_identifier = ''R1'', feature_count = Some 1\<rparr>,
                  \<lparr>index_label = ''R2_0'', f_lower_bound = 0, f_upper_bound = 10,
                    f_type = ''reaction'', model_identifier = ''R2'', feature_count = Some 0\<rparr>,
                  \<lparr>index_label = ''R3_0'', f_lower_bound = 0, f_upper_bound = 20,
                    f_type = ''reaction'', model_identifier = ''R3'', feature_count = Some 0\<rparr>],
      states = \<lparr>columns = [''R1_0'', ''R1_1'', ''R2_0'', ''R3_0''],
                rows = [(''X'', [Some True, Some True, Some False, Some False]),
                        (''B'', [Some False, Some False, Some True, Some False]),
                        (''C'', [Some False, Some False, Some False, Some True])]\<rparr>\<rparr>"

text \<open>The ensemble of the single model \<open>modelA\<close>.\<close>

definition ensemble_A :: ensemble where
  "ensemble_A = \<lparr>ens_id = ''ens'', base_model = modelA, features = [], states = empty_frame\<rparr>"

section \<open>Properties\<close>

lemma str_of_nat_0: "str_of_nat 0 = ''0''"
  by (simp add: str_of_nat.simps digit_char_def)

lemma str_of_nat_1: "str_of_nat (Suc 0) = ''1''"
  by (simp add: str_of_nat.simps digit_char_def)

lemmas eval_defs =
  Ensemble_init_def construct_concurrent_def create_base_model_def add_reactions_def
  set_features_states_def set_features_step_def single_reaction_model_def
  modelA_def modelB_def modelC_def Let_def get_by_id_def set_count_def feature_label_def
  str_of_nat_0 str_of_nat_1 same_key_def join_outer_def set_columns_def empty_frame_def
  empty_model_def concat_frames_def fillna_False_def cell_at_def

lemma construct_AB:
  "construct_concurrent ''ens'' (Some [modelA, modelB]) = Inr ensemble_AB"
  by (simp add: eval_defs ensemble_AB_def)

subsection \<open>Construction from an empty model list\<close>

text \<open>
  C10. Constructing an ensemble with \<open>None\<close> or with an empty list as model list, under
  either join method, raises nothing: the ensemble has a fresh model without reactions
  named \<open>base_id + '_base_model'\<close> as base, and empty \<open>features\<close> and \<open>states\<close> tables.
\<close>

theorem empty_model_list_constructs:
  "Ensemble_init model_iter base_id None ''concurrent'' join_size =
     Inr \<lparr>ens_id = base_id,
          base_model = CobraModel \<lparr>model_id = base_id @ ''_base_model'', reactions = []\<rparr>,
          features = [], states = \<lparr>columns = [], rows = []\<rparr>\<rparr>
   \<and> Ensemble_init model_iter base_id (Some []) ''concurrent'' join_size =
     Inr \<lparr>ens_id = base_id,
          base_model = CobraModel \<lparr>model_id = base_id @ ''_base_model'', reactions = []\<rparr>,
          features = [], states = \<lparr>columns = [], rows = []\<rparr>\<rparr>
   \<and> Ensemble_init model_iter base_id None ''iterative'' join_size =
     Inr \<lparr>ens_id = base_id,
          base_model = CobraModel \<lparr>model_id = base_id @ ''_base_model'', reactions = []\<rparr>,
          features = [], states = \<lparr>columns = [], rows = []\<rparr>\<rparr>
   \<and> Ensemble_init model_iter base_id (Some []) ''iterative'' join_size =
     Inr \<lparr>ens_id = base_id,
          base_model = CobraModel \<lparr>model_id = base_id @ ''_base_model'', reactions = []\<rparr>,
          features = [], states = \<lparr>columns = [], rows = []\<rparr>\<rparr>"
  by (simp add: Ensemble_init_def construct_concurrent_def empty_model_def empty_frame_def)

theorem empty_model_list_constructs_witness:
  "Ensemble_init cobra_iter ''ens'' None ''concurrent'' 1 =
     Inr \<lparr>ens_id = ''ens'',
          base_model = CobraModel \<lparr>model_id = ''ens_base_model'', reactions = []\<rparr>,
          features = [], states = \<lparr>columns = [], rows = []\<rparr>\<rparr>"
  using empty_model_list_constructs [of cobra_iter "''ens''" 1] by simp

subsection \<open>A merge that raises leaves the target ensemble as it was\<close>

text \<open>
  C7. If \<open>update_features_states\<close> raises an error, none of the attributes
  \<open>base_model\<close>, \<open>features\<close>, \<open>states\<close> of the target ensemble has been overwritten: the
  ensemble is in its state from before the merge.
\<close>

theorem merge_error_keeps_state:
  "fst (update_features_states model_iter old_ensemble model_list) = Some err
     \<Longrightarrow> snd (update_features_states model_iter old_ensemble model_list) = old_ensemble"
  by (auto simp: update_features_states_def Let_def
           split: if_splits sum.splits pyobj.splits list.splits)

theorem merge_error_keeps_state_witness:
  "fst (update_features_states cobra_iter ensemble_AB [modelA]) = Some TypeError
   \<and> snd (update_features_states cobra_iter ensemble_AB [modelA]) = ensemble_AB"
  using merge_error_keeps_state [of cobra_iter ensemble_AB "[modelA]" TypeError]
  by (simp add: update_features_states_def eval_defs ensemble_AB_def cobra_iter_def)

subsection \<open>Building from the same model twice\<close>

lemma reaction_set_loop_twice:
  "reaction_set_loop [] [CobraModel a, CobraModel a] = Inr (remdups (map rxn_id (reactions a)))"
  by (simp add: Let_def filter_id_conv)

lemma set_features_states_twice:
  assumes "features e = []"
  shows "isl (set_features_states e [A, A])"
proof (cases A)
  case NotAModel
  then show ?thesis by (simp add: set_features_states_def)
next
  case (CobraModel a)
  have "filter (\<lambda>r. rxn_id r \<notin> set (remdups (map rxn_id (reactions a)))) (reactions a) = []"
    by (simp add: filter_empty_conv)
  then have "set_features_step (remdups (map rxn_id (reactions a))) e (CobraModel a) = Inl KeyError"
    using assms by (simp add: set_features_step_def)
  then show ?thesis
    using CobraModel
    by (simp add: set_features_states_def reaction_set_loop_twice del: reaction_set_loop.simps)
qed

lemma construct_twice: "isl (construct_concurrent base_id (Some [A, A]))"
  using set_features_states_twice
  by (simp add: construct_concurrent_def Let_def split: sum.splits)

text \<open>
  C6. Building an ensemble from the list \<open>[A, A]\<close> does not succeed: whatever the
  model, the join method and the join size, the constructor raises. (With a model of
  one reaction and the default join method it is the \<open>KeyError\<close> of the missing column
  \<open>model_identifier\<close>.)
\<close>

theorem same_model_twice_fails:
  "isl (Ensemble_init model_iter base_id (Some [A, A]) join_method join_size)
   \<and> Ensemble_init cobra_iter ''ens'' (Some [modelA, modelA]) ''concurrent'' 1 = Inl KeyError"
proof
  consider "join_size = 0" | "join_size = 1" | "join_size \<ge> 2" by linarith
  then show "isl (Ensemble_init model_iter base_id (Some [A, A]) join_method join_size)"
  proof cases
    case 1
    then show ?thesis
      using construct_twice [of base_id A]
      by (simp add: Ensemble_init_def Let_def slice_def set_features_states_def split: sum.splits)
  next
    case 2
    have sl: "slice [A, A] 0 (Suc 0) = [A]" "slice [A, A] (Suc 0) (Suc (Suc 0)) = [A]"
      by (simp_all add: slice_def)
    have up: "[0..<2::nat] = [0, 1]" by (simp add: upt_rec)
    have u: "\<exists>x. update_features_states model_iter e [A] = (Some x, e)"
      if "features e = []" "base_model e = A" for e
    proof -
      obtain x where "construct_concurrent (ens_id e) (Some [A, A]) = Inl x"
        using construct_twice [of "ens_id e" A] by (auto simp: isl_def)
      then show ?thesis using that by (simp add: update_features_states_def)
    qed
    show ?thesis
    proof (cases "join_method = ''iterative''")
      case True
      let ?s = "\<lparr>ens_id = base_id, base_model = A, features = [], states = empty_frame\<rparr>"
      obtain x where "update_features_states model_iter ?s [A] = (Some x, ?s)"
        using u [of ?s] by auto
      then show ?thesis
        using True 2 by (simp add: Ensemble_init_def Let_def sl up set_features_states_def)
    next
      case False
      then show ?thesis
        using construct_twice [of base_id A] by (simp add: Ensemble_init_def)
    qed
  next
    case 3
    then have sl: "slice [A, A] 0 join_size = [A, A]" by (simp add: slice_def)
    let ?s = "\<lparr>ens_id = base_id, base_model = empty_model (base_id @ ''_base_model''),
               features = [], states = empty_frame\<rparr>"
    obtain x where "set_features_states ?s [A, A] = Inl x"
      using set_features_states_twice [of ?s A] by (auto simp: isl_def)
    then show ?thesis
      using construct_twice [of base_id A] sl
      by (simp add: Ensemble_init_def Let_def)
  qed
next
  show "Ensemble_init cobra_iter ''ens'' (Some [modelA, modelA]) ''concurrent'' 1 = Inl KeyError"
    by (simp add: Ensemble_init_def construct_concurrent_def create_base_model_def
          add_reactions_def set_features_states_def set_features_step_def modelA_def
          single_reaction_model_def Let_def)
qed

subsection \<open>A merge into an ensemble that has features\<close>

text \<open>
  C2. Merging the model \<open>modelC\<close> (reaction \<open>R3\<close>) into the ensemble built from
  \<open>modelA\<close> and \<open>modelB\<close>, which has features: whatever iterating a model gives,
  \<open>update_features_states\<close> leaves the ensemble exactly as it was, so its base has no
  \<open>R3\<close> and its states no row for \<open>C\<close>; with cobra's models the call raises
  \<open>TypeError\<close>.
\<close>

theorem merge_does_not_update:
  "construct_concurrent ''ens'' (Some [modelA, modelB]) = Inr ensemble_AB
   \<and> snd (update_features_states model_iter ensemble_AB [modelC]) = ensemble_AB
   \<and> update_features_states cobra_iter ensemble_AB [modelC] = (Some TypeError, ensemble_AB)"
proof (intro conjI)
  show "construct_concurrent ''ens'' (Some [modelA, modelB]) = Inr ensemble_AB"
    by (rule construct_AB)
  have "features ensemble_AB \<noteq> []" by (simp add: ensemble_AB_def)
  then show "snd (update_features_states model_iter ensemble_AB [modelC]) = ensemble_AB"
    by (simp add: update_features_states_def Let_def split: sum.splits pyobj.splits list.splits)
  show "update_features_states cobra_iter ensemble_AB [modelC] = (Some TypeError, ensemble_AB)"
    by (simp add: update_features_states_def eval_defs ensemble_AB_def cobra_iter_def)
qed

subsection \<open>A feature of the old ensemble that matches the new base\<close>

lemma construct_new_A: "construct_concurrent ''new_models'' (Some [modelA]) = Inr new_A"
  by (simp add: eval_defs new_A_def)

text \<open>
  C3. The feature \<open>R1_0\<close> with bounds (0, 10) of the old ensemble, against a new
  ensemble whose base has \<open>R1\<close> with bounds (0, 10): \<open>_find_feature_from_base\<close> gives
  \<open>None\<close>, and \<open>_resolve_from_both_bases\<close> marks nothing and raises \<open>KeyError\<close>.
\<close>

theorem found_is_not_returned:
  "find_feature_from_base feature_R1_0 new_A = Inr None
   \<and> resolve_from_both_bases setitem [feature_R1_0] new_A ensemble_AB
        (features ensemble_AB) (states ensemble_AB) ''old'' = Inl KeyError"
  by (simp add: find_feature_from_base_def resolve_from_both_bases_def feature_R1_0_def new_A_def
        modelA_def single_reaction_model_def get_by_id_def truthy_def getitem_def Let_def)

subsection \<open>Concurrent and iterative construction\<close>

lemma construct_ABC:
  "construct_concurrent ''ens'' (Some [modelA, modelB, modelC]) = Inr ensemble_ABC"
  by (simp add: eval_defs ensemble_ABC_def)


text \<open>
  C4. From \<open>[modelA, modelB, modelC]\<close> the concurrent constructor builds an ensemble
  with the three reactions in its base and a row of states for each model. The
  iterative constructor with \<open>join_size = 1\<close> either raises or returns the ensemble of
  \<open>modelA\<close> and \<open>modelB\<close> alone, whatever iterating a model gives; with cobra's models
  it raises \<open>TypeError\<close>.
\<close>

theorem iterative_differs_from_concurrent:
  "Ensemble_init model_iter ''ens'' (Some [modelA, modelB, modelC]) ''concurrent'' 1 = Inr ensemble_ABC
   \<and> (isl (Ensemble_init model_iter ''ens'' (Some [modelA, modelB, modelC]) ''iterative'' 1)
      \<or> Ensemble_init model_iter ''ens'' (Some [modelA, modelB, modelC]) ''iterative'' 1 = Inr ensemble_AB)
   \<and> Ensemble_init cobra_iter ''ens'' (Some [modelA, modelB, modelC]) ''iterative'' 1 = Inl TypeError
   \<and> ensemble_ABC \<noteq> ensemble_AB"
proof (intro conjI)
  show "Ensemble_init model_iter ''ens'' (Some [modelA, modelB, modelC]) ''concurrent'' 1 = Inr ensemble_ABC"
    using construct_ABC by (simp add: Ensemble_init_def)
  let ?s = "\<lparr>ens_id = ''ens'', base_model = modelA, features = [], states = empty_frame\<rparr>"
  have up: "[0..<3::nat] = [0, 1, 2]" by (simp add: upt_rec)
  have s1: "update_features_states mi ?s [modelB] = (None, ensemble_AB)" for mi
    using construct_AB by (simp add: update_features_states_def ensemble_AB_def)
  have ne: "features ensemble_AB \<noteq> []" by (simp add: ensemble_AB_def)
  have s2: "update_features_states mi ensemble_AB ml = (None, ensemble_AB)
            \<or> (\<exists>e. update_features_states mi ensemble_AB ml = (Some e, ensemble_AB))" for mi ml
    using ne by (simp add: update_features_states_def Let_def split: sum.splits pyobj.splits list.splits)
  have it: "Ensemble_init mi ''ens'' (Some [modelA, modelB, modelC]) ''iterative'' 1 =
     (case update_features_states mi ensemble_AB [modelC] of
        (Some e, s) \<Rightarrow> Inl e
      | (None, s) \<Rightarrow> (case update_features_states mi s [] of (Some e, s') \<Rightarrow> Inl e | (None, s') \<Rightarrow> Inr s'))" for mi
    by (simp add: Ensemble_init_def set_features_states_def slice_def up s1 Let_def empty_model_def
          split: prod.splits option.splits sum.splits)
  show "isl (Ensemble_init model_iter ''ens'' (Some [modelA, modelB, modelC]) ''iterative'' 1)
      \<or> Ensemble_init model_iter ''ens'' (Some [modelA, modelB, modelC]) ''iterative'' 1 = Inr ensemble_AB"
    unfolding it using s2 [of model_iter "[modelC]"] s2 [of model_iter "[]"] by auto
  show "Ensemble_init cobra_iter ''ens'' (Some [modelA, modelB, modelC]) ''iterative'' 1 = Inl TypeError"
    unfolding it by (simp add: update_features_states_def eval_defs ensemble_AB_def cobra_iter_def)
  show "ensemble_ABC \<noteq> ensemble_AB" by (simp add: ensemble_ABC_def ensemble_AB_def)
qed

subsection \<open>The base model holds the union of the reactions\<close>

lemma add_reactions_ids:
  "add_reactions b rs = Inr b' \<Longrightarrow>
     set (map rxn_id (reactions b')) = set (map rxn_id (reactions b)) \<union> set (map rxn_id rs)
     \<and> model_id b' = model_id b"
proof -
  assume a: "add_reactions b rs = Inr b'"
  let ?p = "filter (\<lambda>r. rxn_id r \<notin> set (map rxn_id (reactions b))) rs"
  from a have b': "b' = b\<lparr>reactions := reactions b @ ?p\<rparr>"
    by (simp add: add_reactions_def Let_def split: if_splits)
  have "rxn_id ` set (reactions b) \<union> rxn_id ` set ?p = rxn_id ` set (reactions b) \<union> rxn_id ` set rs"
    by auto
  then show ?thesis using b' by (simp add: image_Un)
qed

lemma create_base_loop_ids:
  "create_base_loop b ml = Inr b' \<Longrightarrow>
     set (map rxn_id (reactions b')) = set (map rxn_id (reactions b)) \<union> (\<Union>m\<in>set ml. reaction_ids m)"
proof (induction ml arbitrary: b)
  case Nil
  then show ?case by simp
next
  case (Cons m ml)
  from Cons.prems obtain c where m: "m = CobraModel c"
    by (cases m) auto
  from Cons.prems m obtain b1 where
    b1: "add_reactions b (filter (\<lambda>r. rxn_id r \<notin> set (map rxn_id (reactions b))) (reactions c)) = Inr b1"
    and rest: "create_base_loop b1 ml = Inr b'"
    by (auto simp: Let_def split: sum.splits)
  have "set (map rxn_id (reactions b1)) = set (map rxn_id (reactions b)) \<union> set (map rxn_id (reactions c))"
    using add_reactions_ids [OF b1] by auto
  then show ?case
    using Cons.IH [OF rest] m by (auto simp: reaction_ids_def)
qed

lemma create_base_loop_succeeds:
  "distinct (map rxn_id (reactions b)) \<Longrightarrow> \<forall>m\<in>set ml. well_formed m \<Longrightarrow>
     \<exists>b'. create_base_loop b ml = Inr b'"
proof (induction ml arbitrary: b)
  case Nil
  then show ?case by simp
next
  case (Cons m ml)
  from Cons.prems obtain c where m: "m = CobraModel c" and dc: "distinct (map rxn_id (reactions c))"
    by (cases m) (auto simp: well_formed_def)
  let ?add = "filter (\<lambda>r. rxn_id r \<notin> set (map rxn_id (reactions b))) (reactions c)"
  have d1: "distinct (map rxn_id (filter (\<lambda>r. rxn_id r \<notin> set (map rxn_id (reactions b))) ?add))"
    using dc by (simp add: distinct_map_filter)
  let ?b1 = "b\<lparr>reactions := reactions b @ ?add\<rparr>"
  have a: "add_reactions b ?add = Inr ?b1"
    using d1 by (simp add: add_reactions_def Let_def)
  have "distinct (map rxn_id (reactions ?b1))"
    using Cons.prems(1) dc by (auto simp: distinct_map_filter) (metis imageI)
  then obtain b' where "create_base_loop ?b1 ml = Inr b'"
    using Cons.IH [of ?b1] Cons.prems(2) by auto
  then show ?case using m a by (simp add: Let_def)
qed

lemma set_features_step_base:
  "set_features_step rl e m = Inr e' \<Longrightarrow> base_model e' = base_model e \<and> ens_id e' = ens_id e"
  by (auto simp: set_features_step_def Let_def split: sum.splits if_splits)

lemma set_features_loop_base:
  "set_features_loop rl e ml = Inr e' \<Longrightarrow> base_model e' = base_model e \<and> ens_id e' = ens_id e"
proof (induction ml arbitrary: e)
  case Nil
  then show ?case by simp
next
  case (Cons m ml)
  then show ?case
    by (auto split: sum.splits dest!: set_features_step_base)
qed

subsection \<open>An element of the list that is no model\<close>

lemma create_base_loop_not_a_model:
  "NotAModel \<in> set ml \<Longrightarrow> distinct (map rxn_id (reactions b)) \<Longrightarrow>
   (\<forall>c. CobraModel c \<in> set ml \<longrightarrow> distinct (map rxn_id (reactions c))) \<Longrightarrow>
   create_base_loop b ml = Inl AttributeError"
proof (induction ml arbitrary: b)
  case Nil
  then show ?case by simp
next
  case (Cons m ml)
  show ?case
  proof (cases m)
    case NotAModel
    then show ?thesis by simp
  next
    case (CobraModel c)
    then have dc: "distinct (map rxn_id (reactions c))" and rest: "NotAModel \<in> set ml"
      using Cons.prems by auto
    let ?add = "filter (\<lambda>r. rxn_id r \<notin> set (map rxn_id (reactions b))) (reactions c)"
    let ?b1 = "b\<lparr>reactions := reactions b @ ?add\<rparr>"
    have d1: "distinct (map rxn_id (filter (\<lambda>r. rxn_id r \<notin> set (map rxn_id (reactions b))) ?add))"
      using dc by (simp add: distinct_map_filter)
    have a: "add_reactions b ?add = Inr ?b1"
      using d1 by (simp add: add_reactions_def Let_def)
    have "distinct (map rxn_id (reactions ?b1))"
      using Cons.prems(2) dc by (auto simp: distinct_map_filter) (metis imageI)
    then have "create_base_loop ?b1 ml = Inl AttributeError"
      using Cons.IH [of ?b1] rest Cons.prems(3) by auto
    then show ?thesis using CobraModel a by (simp add: Let_def)
  qed
qed

subsection \<open>Feature tables and states built by set_features_states\<close>

lemma same_key_iff: "same_key f g \<longleftrightarrow> key_of f = key_of g"
  by (auto simp: same_key_def key_of_def)

lemma key_of_set_count [simp]: "key_of (set_count f c) = key_of f"
  by (simp add: key_of_def set_count_def)

lemma list_ex_same_key: "list_ex (\<lambda>g. same_key g f) xs \<longleftrightarrow> key_of f \<in> key_of ` set xs"
  by (auto simp: list_ex_iff same_key_iff) (metis imageI)

lemma variable_reactions_inv:
  "variable_reactions all_rs acc rs = Inr fs \<Longrightarrow>
   distinct (map index_label acc) \<Longrightarrow> \<forall>f\<in>set acc. row_ok all_rs rl f \<Longrightarrow>
   \<forall>r\<in>set rs. rxn_id r \<notin> set rl \<Longrightarrow>
   distinct (map index_label fs) \<and> (\<forall>f\<in>set fs. row_ok all_rs rl f)
   \<and> index_label ` set fs = index_label ` set acc \<union> rxn_id ` set rs"
proof (induction rs arbitrary: acc)
  case Nil
  then show ?case by simp
next
  case (Cons r rs)
  show ?case
  proof (cases "rxn_id r \<in> set (map index_label acc)")
    case True
    then have "variable_reactions all_rs acc rs = Inr fs" using Cons.prems(1) by simp
    from Cons.IH [OF this Cons.prems(2,3)] Cons.prems(4) True show ?thesis by auto
  next
    case False
    then obtain q where q: "get_by_id all_rs (rxn_id r) = Inr q"
      using Cons.prems(1) by (auto split: sum.splits)
    let ?f = "\<lparr>index_label = rxn_id r, f_lower_bound = lower_bound q,
               f_upper_bound = upper_bound q, f_type = ''reaction'',
               model_identifier = rxn_id r, feature_count = None\<rparr>"
    have rec: "variable_reactions all_rs (acc @ [?f]) rs = Inr fs"
      using Cons.prems(1) False q by simp
    have fq: "find (\<lambda>x. rxn_id x = rxn_id r) all_rs = Some q"
      using q by (auto simp: get_by_id_def split: option.splits)
    have ok: "row_ok all_rs rl ?f"
      using fq Cons.prems(4) by (simp add: row_ok_def)
    have d: "distinct (map index_label (acc @ [?f]))"
      using Cons.prems(2) False by simp
    have a: "\<forall>f\<in>set (acc @ [?f]). row_ok all_rs rl f"
      using Cons.prems(3) ok by auto
    from Cons.IH [OF rec d a] Cons.prems(4) show ?thesis by auto
  qed
qed

lemma row_ok_key:
  "row_ok (reactions c) rl f \<Longrightarrow> index_label f \<in> rxn_id ` set (filter (\<lambda>r. rxn_id r \<notin> set rl) (reactions c))
     \<Longrightarrow> key_of f \<in> set (model_keys rl (CobraModel c))"
  by (auto simp: row_ok_def model_keys_def key_of_def split: option.splits)


lemma model_keys_row:
  assumes "k \<in> set (model_keys rl (CobraModel c))"
  shows "\<exists>r q. r \<in> set (reactions c) \<and> rxn_id r \<notin> set rl
        \<and> find (\<lambda>x. rxn_id x = rxn_id r) (reactions c) = Some q
        \<and> k = (lower_bound q, upper_bound q, ''reaction'', rxn_id r)"
proof -
  from assms obtain r where r: "r \<in> set (reactions c)" "rxn_id r \<notin> set rl"
    and k: "k \<in> set (case find (\<lambda>x. rxn_id x = rxn_id r) (reactions c) of
                        None \<Rightarrow> []
                      | Some q \<Rightarrow> [(lower_bound q, upper_bound q, ''reaction'', rxn_id r)])"
    by (auto simp: model_keys_def)
  then obtain q where "find (\<lambda>x. rxn_id x = rxn_id r) (reactions c) = Some q"
    "k = (lower_bound q, upper_bound q, ''reaction'', rxn_id r)"
    by (cases "find (\<lambda>x. rxn_id x = rxn_id r) (reactions c)") auto
  then show ?thesis using r by blast
qed

lemma model_keys_functional:
  assumes "k \<in> set (model_keys rl m)" "k' \<in> set (model_keys rl m)"
    and e: "snd (snd (snd k)) = snd (snd (snd k'))"
  shows "k = k'"
proof (cases m)
  case NotAModel
  then show ?thesis using assms by (simp add: model_keys_def)
next
  case (CobraModel c)
  from model_keys_row [OF assms(1) [unfolded CobraModel]]
  obtain r :: reaction and q where 1: "find (\<lambda>x. rxn_id x = rxn_id r) (reactions c) = Some q"
    "k = (lower_bound q, upper_bound q, ''reaction'', rxn_id r)"
    by blast
  from model_keys_row [OF assms(2) [unfolded CobraModel]]
  obtain r' :: reaction and q' where 2: "find (\<lambda>x. rxn_id x = rxn_id r') (reactions c) = Some q'"
    "k' = (lower_bound q', upper_bound q', ''reaction'', rxn_id r')"
    by blast
  show ?thesis using 1 2 e by auto
qed

lemma model_frame:
  assumes "variable_reactions (reactions c) [] (filter (\<lambda>r. rxn_id r \<notin> set rl) (reactions c)) = Inr feats"
  shows "distinct (map index_label feats)"
    and "\<forall>f\<in>set feats. row_ok (reactions c) rl f"
    and "key_of ` set feats = set (model_keys rl (CobraModel c))"
proof -
  have inv: "distinct (map index_label feats) \<and> (\<forall>f\<in>set feats. row_ok (reactions c) rl f)
   \<and> index_label ` set feats = index_label ` set [] \<union> rxn_id ` set (filter (\<lambda>r. rxn_id r \<notin> set rl) (reactions c))"
    using variable_reactions_inv [OF assms, of rl] by simp
  then show d: "distinct (map index_label feats)" and ok: "\<forall>f\<in>set feats. row_ok (reactions c) rl f"
    by auto
  have lab: "index_label ` set feats = rxn_id ` set (filter (\<lambda>r. rxn_id r \<notin> set rl) (reactions c))"
    using inv by simp
  show "key_of ` set feats = set (model_keys rl (CobraModel c))"
  proof
    show "key_of ` set feats \<subseteq> set (model_keys rl (CobraModel c))"
      using ok lab row_ok_key by blast
    show "set (model_keys rl (CobraModel c)) \<subseteq> key_of ` set feats"
    proof
      fix k assume "k \<in> set (model_keys rl (CobraModel c))"
      then obtain r q where r: "r \<in> set (reactions c)" "rxn_id r \<notin> set rl"
        and q: "find (\<lambda>x. rxn_id x = rxn_id r) (reactions c) = Some q"
        and k: "k = (lower_bound q, upper_bound q, ''reaction'', rxn_id r)"
        using model_keys_row [of k rl c] by blast
      have "rxn_id r \<in> index_label ` set feats" using r lab by auto
      then obtain f where f: "f \<in> set feats" "index_label f = rxn_id r" by auto
      then have "row_ok (reactions c) rl f" using ok by auto
      then have "key_of f = k" using f q k by (auto simp: row_ok_def key_of_def)
      then show "k \<in> key_of ` set feats" using f by auto
    qed
  qed
qed

lemma model_frame_distinct_keys:
  assumes "distinct (map index_label feats)" "\<forall>f\<in>set feats. row_ok all_rs rl f"
  shows "distinct (map key_of feats)"
proof -
  have "inj_on key_of (set feats)"
  proof (rule inj_onI)
    fix f g assume "f \<in> set feats" "g \<in> set feats" "key_of f = key_of g"
    then have "index_label f = index_label g" using assms(2) by (auto simp: row_ok_def key_of_def)
    then show "f = g" using assms(1) \<open>f \<in> set feats\<close> \<open>g \<in> set feats\<close>
      by (meson distinct_map inj_onD)
  qed
  moreover have "distinct feats" using assms(1) by (simp add: distinct_map)
  ultimately show ?thesis by (simp add: distinct_map)
qed

lemma duplicated_first_distinct:
  "distinct (map key_of fs) \<Longrightarrow>
     duplicated_first seen fs = map (\<lambda>f. key_of f \<in> key_of ` set seen) fs"
proof (induction fs arbitrary: seen)
  case Nil
  then show ?case by simp
next
  case (Cons f fs)
  have "map (\<lambda>g. key_of g \<in> key_of ` set (seen @ [f])) fs = map (\<lambda>g. key_of g \<in> key_of ` set seen) fs"
    using Cons.prems by (intro map_cong refl) (fastforce simp: image_iff)
  then show ?case using Cons by (simp add: list_ex_same_key)
qed

lemma duplicated_first_append:
  "duplicated_first seen (xs @ ys) = duplicated_first seen xs @ duplicated_first (seen @ xs) ys"
  by (induction xs arbitrary: seen) auto

lemma duplicated_any_append:
  "distinct (map key_of xs) \<Longrightarrow>
     duplicated_any seen (xs @ ys) =
       map (\<lambda>f. key_of f \<in> key_of ` (set seen \<union> set ys)) xs @ duplicated_any (seen @ xs) ys"
proof (induction xs arbitrary: seen)
  case Nil
  then show ?case by simp
next
  case (Cons x xs)
  have "map (\<lambda>f. key_of f \<in> key_of ` (set (seen @ [x]) \<union> set ys)) xs
        = map (\<lambda>f. key_of f \<in> key_of ` (set seen \<union> set ys)) xs"
    using Cons.prems by (intro map_cong refl) (fastforce simp: image_iff)
  moreover have "list_ex (\<lambda>g. same_key g x) (seen @ xs @ ys) \<longleftrightarrow> key_of x \<in> key_of ` (set seen \<union> set ys)"
    using Cons.prems by (auto simp: list_ex_same_key)
  ultimately show ?case using Cons by simp
qed

lemma length_cumcount [simp]: "length (cumcount seen fs) = length fs"
  by (induction fs arbitrary: seen) auto

lemma cumcount_append:
  "cumcount seen (xs @ ys) = cumcount seen xs @ cumcount (seen @ xs) ys"
  by (induction xs arbitrary: seen) auto

lemma cumcount_bound:
  "(f, c) \<in> set (zip fs (cumcount seen fs)) \<Longrightarrow>
     length (filter (\<lambda>g. model_identifier g = model_identifier f) seen) \<le> c"
proof (induction fs arbitrary: seen)
  case Nil
  then show ?case by simp
next
  case (Cons x fs)
  from Cons.prems consider "f = x" "c = length (filter (\<lambda>g. model_identifier g = model_identifier x) seen)"
    | "(f, c) \<in> set (zip fs (cumcount (seen @ [x]) fs))" by auto
  then show ?case
  proof cases
    case 1
    then show ?thesis by simp
  next
    case 2
    from Cons.IH [OF this] show ?thesis by (simp split: if_splits)
  qed
qed

lemma cumcount_pairs_distinct:
  "distinct (map2 (\<lambda>f c. (model_identifier f, c)) fs (cumcount seen fs))"
proof (induction fs arbitrary: seen)
  case Nil
  then show ?case by simp
next
  case (Cons x fs)
  have "(model_identifier x, length (filter (\<lambda>g. model_identifier g = model_identifier x) seen))
          \<notin> set (map2 (\<lambda>f c. (model_identifier f, c)) fs (cumcount (seen @ [x]) fs))"
  proof
    assume "(model_identifier x, length (filter (\<lambda>g. model_identifier g = model_identifier x) seen))
          \<in> set (map2 (\<lambda>f c. (model_identifier f, c)) fs (cumcount (seen @ [x]) fs))"
    then obtain f c where fc: "(f, c) \<in> set (zip fs (cumcount (seen @ [x]) fs))"
      "model_identifier f = model_identifier x"
      "c = length (filter (\<lambda>g. model_identifier g = model_identifier x) seen)"
      by auto
    from cumcount_bound [OF fc(1)] fc(2,3) show False by simp
  qed
  then show ?case using Cons.IH by simp
qed


lemma digit_char_not_underscore: "digit_char d \<noteq> CHR ''_''" "CHR ''_'' \<noteq> digit_char d"
proof -
  have "d mod 10 < 10" by simp
  then have "d mod 10 \<in> {0,1,2,3,4,5,6,7,8,9}" by (simp, arith)
  then show "digit_char d \<noteq> CHR ''_''" unfolding digit_char_def by auto
  then show "CHR ''_'' \<noteq> digit_char d" by metis
qed

lemma digit_char_inj: "a < 10 \<Longrightarrow> b < 10 \<Longrightarrow> digit_char a = digit_char b \<Longrightarrow> a = b"
proof -
  assume "a < 10" "b < 10" and e: "digit_char a = digit_char b"
  then have "a \<in> {0,1,2,3,4,5,6,7,8,9}" "b \<in> {0,1,2,3,4,5,6,7,8,9}" by auto
  then show ?thesis using e unfolding digit_char_def by auto
qed

lemma str_of_nat_nonempty: "str_of_nat n \<noteq> []"
  by (subst str_of_nat.simps) simp

lemma str_of_nat_no_underscore: "CHR ''_'' \<notin> set (str_of_nat n)"
proof (induction n rule: str_of_nat.induct)
  case (1 n)
  then show ?case
    by (subst str_of_nat.simps) (auto simp: digit_char_not_underscore)
qed

lemma str_of_nat_inj: "str_of_nat n = str_of_nat m \<Longrightarrow> n = m"
proof (induction n arbitrary: m rule: str_of_nat.induct)
  case (1 n)
  have en: "str_of_nat n = (if n < 10 then [digit_char n] else str_of_nat (n div 10) @ [digit_char (n mod 10)])"
    by (rule str_of_nat.simps)
  have em: "str_of_nat m = (if m < 10 then [digit_char m] else str_of_nat (m div 10) @ [digit_char (m mod 10)])"
    by (rule str_of_nat.simps)
  show ?case
  proof (cases "n < 10")
    case True
    then have "m < 10"
      using "1.prems" en em str_of_nat_nonempty [of "m div 10"] by (auto split: if_splits)
    then show ?thesis
      using True "1.prems" en em digit_char_inj by auto
  next
    case False
    then have m: "\<not> m < 10"
      using "1.prems" en em str_of_nat_nonempty [of "n div 10"] by (auto split: if_splits)
    then have "str_of_nat (n div 10) = str_of_nat (m div 10)" "digit_char (n mod 10) = digit_char (m mod 10)"
      using False "1.prems" en em by auto
    then have "n div 10 = m div 10" "n mod 10 = m mod 10"
      using "1.IH" [OF False] digit_char_inj [of "n mod 10" "m mod 10"] by auto
    then show ?thesis by (metis div_mult_mod_eq)
  qed
qed

lemma append_sep_inj:
  "xs @ x # ys = xs' @ x # ys' \<Longrightarrow> x \<notin> set ys \<Longrightarrow> x \<notin> set ys' \<Longrightarrow> xs = xs' \<and> ys = ys'"
proof (induction xs arbitrary: xs')
  case Nil
  then show ?case by (cases xs') auto
next
  case (Cons a xs)
  then show ?case by (cases xs') auto
qed

lemma feature_label_inj:
  "feature_label m c = feature_label m' c' \<Longrightarrow> m = m' \<and> c = c'"
  unfolding feature_label_def
  using append_sep_inj [of m "CHR ''_''" "str_of_nat c" m' "str_of_nat c'"]
    str_of_nat_no_underscore str_of_nat_inj by auto

lemma kept_old:
  "map snd (filter (\<lambda>(d, x). \<not> d) (zip (map (\<lambda>_. False) xs) (zip xs (map Q xs))))
     = map (\<lambda>x. (x, Q x)) xs"
  by (induction xs) auto

lemma kept_new:
  "map snd (filter (\<lambda>(d, x). \<not> d) (zip (map P xs) (zip xs (map P xs))))
     = map (\<lambda>x. (x, False)) (filter (\<lambda>x. \<not> P x) xs)"
  by (induction xs) auto

lemma counted_old:
  "length cs = length xs \<Longrightarrow> map2 set_count xs cs = xs \<Longrightarrow>
     map2 (\<lambda>(f, b) c. (set_count f c, b)) (map (\<lambda>g. (g, Q g)) xs) cs = map (\<lambda>g. (g, Q g)) xs"
  by (induction xs cs rule: list_induct2') auto

lemma counted_new:
  "map2 (\<lambda>(f, b) c. (set_count f c, b)) (map (\<lambda>f. (f, False)) xs) cs
     = map (\<lambda>f. (f, False)) (map2 set_count xs cs)"
  by (induction xs cs rule: list_induct2') auto

lemma cumcount_cong:
  "map model_identifier seen = map model_identifier seen' \<Longrightarrow>
   map model_identifier fs = map model_identifier fs' \<Longrightarrow>
   cumcount seen fs = cumcount seen' fs'"
proof (induction fs arbitrary: seen seen' fs')
  case Nil
  then show ?case by simp
next
  case (Cons f fs)
  then obtain f' fs'' where f': "fs' = f' # fs''" "model_identifier f = model_identifier f'"
    "map model_identifier fs = map model_identifier fs''"
    by (cases fs') auto
  have "length (filter (\<lambda>g. model_identifier g = model_identifier f) seen)
      = length (filter (\<lambda>g. model_identifier g = model_identifier f') seen')"
  proof -
    have "length (filter (\<lambda>g. model_identifier g = model_identifier f) seen)
        = length (filter (\<lambda>i. i = model_identifier f) (map model_identifier seen))"
      by (simp add: filter_map comp_def)
    also have "\<dots> = length (filter (\<lambda>i. i = model_identifier f') (map model_identifier seen'))"
      using Cons.prems(1) f'(2) by simp
    also have "\<dots> = length (filter (\<lambda>g. model_identifier g = model_identifier f') seen')"
      by (simp add: filter_map comp_def)
    finally show ?thesis .
  qed
  moreover have "cumcount (seen @ [f]) fs = cumcount (seen' @ [f']) fs''"
    using Cons.IH [of "seen @ [f]" "seen' @ [f']" fs''] Cons.prems(1) f' by simp
  ultimately show ?case using f' by simp
qed

lemma model_identifier_set_count [simp]: "model_identifier (set_count f c) = model_identifier f"
  by (simp add: set_count_def)

lemma set_count_idem [simp]: "set_count (set_count f c) c = set_count f c"
  by (simp add: set_count_def)

lemma map_mid_map2_set_count:
  "length cs = length xs \<Longrightarrow> map model_identifier (map2 set_count xs cs) = map model_identifier xs"
  by (induction xs cs rule: list_induct2') auto

lemma relabelled_labels:
  assumes "relabelled fs"
  shows "map index_label fs = map2 (\<lambda>f c. feature_label (model_identifier f) c) fs (cumcount [] fs)"
proof -
  have "map index_label fs = map index_label (map2 set_count fs (cumcount [] fs))"
    using assms by (simp add: relabelled_def)
  also have "\<dots> = map2 (\<lambda>f c. feature_label (model_identifier f) c) fs (cumcount [] fs)"
    by (simp add: set_count_def split_def)
  finally show ?thesis .
qed

lemma relabelled_distinct_labels:
  assumes "relabelled fs"
  shows "distinct (map index_label fs)"
proof -
  define ps where "ps = map2 (\<lambda>f c. (model_identifier f, c)) fs (cumcount [] fs)"
  have l: "map index_label fs = map (\<lambda>(m, c). feature_label m c) ps"
    using relabelled_labels [OF assms] by (simp add: ps_def split_def)
  have d: "distinct ps"
    unfolding ps_def by (rule cumcount_pairs_distinct)
  have i: "inj_on (\<lambda>(m, c). feature_label m c) (set ps)"
    by (auto simp: inj_on_def dest: feature_label_inj)
  show ?thesis unfolding l using d i by (simp add: distinct_map)
qed

lemma cell_at_map:
  "distinct (map l xs) \<Longrightarrow> x \<in> set xs \<Longrightarrow> cell_at (map l xs) (map F xs) (l x) = F x"
proof (induction xs)
  case Nil
  then show ?case by simp
next
  case (Cons a xs)
  then show ?case by (auto simp: cell_at_def image_iff)
qed

lemma cell_at_missing:
  "c \<notin> set cols \<Longrightarrow> cell_at cols cells c = None"
proof -
  assume "c \<notin> set cols"
  then have "c \<notin> fst ` set (zip cols cells)" by (auto dest: set_zip_leftD)
  then have "map_of (zip cols cells) c = None" by (simp add: map_of_eq_None_iff)
  then show ?thesis by (simp add: cell_at_def)
qed

lemma map2_set_count_idem:
  "map2 set_count (map2 set_count xs cs) cs = map2 set_count xs cs"
  by (induction xs cs rule: list_induct2') auto

lemma relabelled_append:
  assumes "relabelled old"
  shows "relabelled (old @ new_rows old feats)"
proof -
  define newf where "newf = filter (\<lambda>f. key_of f \<notin> key_of ` set old) feats"
  define cs where "cs = cumcount old newf"
  have n: "new_rows old feats = map2 set_count newf cs"
    by (simp add: new_rows_def newf_def cs_def Let_def)
  have lc: "length cs = length newf" by (simp add: cs_def)
  have mid: "map model_identifier (map2 set_count newf cs) = map model_identifier newf"
    using lc by (rule map_mid_map2_set_count)
  have c2: "cumcount old (map2 set_count newf cs) = cs"
    unfolding cs_def [symmetric] using cumcount_cong [OF refl mid, of old] by (simp add: cs_def)
  have idem: "map2 set_count (map2 set_count newf cs) cs = map2 set_count newf cs"
    by (rule map2_set_count_idem)
  have "map2 set_count (old @ map2 set_count newf cs) (cumcount [] (old @ map2 set_count newf cs))
      = map2 set_count old (cumcount [] old) @ map2 set_count (map2 set_count newf cs) cs"
    by (simp add: cumcount_append c2)
  then show ?thesis
    using assms idem by (simp add: relabelled_def n)
qed

lemma mark_new:
  "(\<And>f. f \<in> set xs \<Longrightarrow> l f \<notin> S) \<Longrightarrow>
     map (\<lambda>(f, b). (f, l f \<notin> S \<or> b)) (map (\<lambda>f. (f, False)) xs) = map (\<lambda>f. (f, True)) xs"
  by (induction xs) auto

lemma mark_true:
  "(\<And>f. f \<in> set xs \<Longrightarrow> Q f) \<Longrightarrow> map (\<lambda>f. (f, True)) xs = map (\<lambda>f. (f, Q f)) xs"
  by (induction xs) auto

lemma marked_rows:
  assumes dk_old: "distinct (map key_of old)" and dk_f: "distinct (map key_of feats)"
    and rel: "relabelled old"
  shows "(let new_df = old @ feats;
              duplicate_features = duplicated_first [] new_df;
              in_new_model = duplicated_any [] new_df;
              kept = map snd (filter (\<lambda>(d, x). \<not> d)
                        (zip duplicate_features (zip new_df in_new_model)));
              counted = map2 (\<lambda>(f, b) c. (set_count f c, b)) kept
                          (cumcount [] (map fst kept));
              old_labels = map index_label old
          in map (\<lambda>(f, b). (f, index_label f \<notin> set old_labels \<or> b)) counted)
         = map (\<lambda>f. (f, key_of f \<in> key_of ` set feats)) (old @ new_rows old feats)"
proof -
  define newf where "newf = filter (\<lambda>f. key_of f \<notin> key_of ` set old) feats"
  define cs where "cs = cumcount old newf"
  define Q where "Q = (\<lambda>g. key_of g \<in> key_of ` set feats)"
  define P where "P = (\<lambda>f. key_of f \<in> key_of ` set old)"
  have n: "new_rows old feats = map2 set_count newf cs"
    by (simp add: new_rows_def newf_def cs_def Let_def)
  have lc: "length cs = length newf" by (simp add: cs_def)
  have df: "duplicated_first [] (old @ feats) = map (\<lambda>_. False) old @ map P feats"
    using duplicated_first_distinct [OF dk_old, of "[]"] duplicated_first_distinct [OF dk_f, of old]
    by (simp add: duplicated_first_append P_def)
  have da: "duplicated_any [] (old @ feats) = map Q old @ map P feats"
    using duplicated_any_append [OF dk_old, of "[]" feats]
      duplicated_any_append [OF dk_f, of old "[]"]
    by (simp add: Q_def P_def)
  have kept: "map snd (filter (\<lambda>(d, x). \<not> d)
                 (zip (duplicated_first [] (old @ feats))
                      (zip (old @ feats) (duplicated_any [] (old @ feats)))))
              = map (\<lambda>g. (g, Q g)) old @ map (\<lambda>f. (f, False)) newf"
    unfolding df da
    by (simp add: zip_append kept_old kept_new newf_def P_def)
  have fk: "map fst (map (\<lambda>g. (g, Q g)) old @ map (\<lambda>f. (f, False)) newf) = old @ newf"
    by (simp add: comp_def)
  have relo: "map2 set_count old (cumcount [] old) = old"
    using rel by (simp add: relabelled_def)
  have counted: "map2 (\<lambda>(f, b) c. (set_count f c, b))
                   (map (\<lambda>g. (g, Q g)) old @ map (\<lambda>f. (f, False)) newf)
                   (cumcount [] (old @ newf))
                 = map (\<lambda>g. (g, Q g)) old @ map (\<lambda>f. (f, False)) (map2 set_count newf cs)"
    using counted_old [of "cumcount [] old" old Q] relo
    by (simp add: cumcount_append zip_append counted_new cs_def)
  have dl: "distinct (map index_label (old @ map2 set_count newf cs))"
    using relabelled_distinct_labels [OF relabelled_append [OF rel, of feats]] by (simp add: n)
  have m1: "map (\<lambda>(f, b). (f, index_label f \<notin> set (map index_label old) \<or> b)) (map (\<lambda>g. (g, Q g)) old)
            = map (\<lambda>g. (g, Q g)) old"
    by simp
  have m2: "map (\<lambda>(f, b). (f, index_label f \<notin> set (map index_label old) \<or> b))
               (map (\<lambda>f. (f, False)) (map2 set_count newf cs))
            = map (\<lambda>f. (f, True)) (map2 set_count newf cs)"
  proof -
    have "set (map index_label old) \<inter> set (map index_label (map2 set_count newf cs)) = {}"
      using dl by simp
    then have nl: "f \<in> set (map2 set_count newf cs) \<Longrightarrow> index_label f \<notin> set (map index_label old)" for f
      by (metis disjoint_iff imageI list.set_map)
    show ?thesis by (rule mark_new) (rule nl)
  qed
  have kq: "f \<in> set (map2 set_count newf cs) \<Longrightarrow> Q f" for f
  proof -
    assume "f \<in> set (map2 set_count newf cs)"
    then obtain g c where "g \<in> set newf" "f = set_count g c"
      by (auto dest: set_zip_leftD)
    then show "Q f" by (auto simp: newf_def Q_def)
  qed
  have m3: "map (\<lambda>f. (f, True)) (map2 set_count newf cs) = map (\<lambda>f. (f, Q f)) (map2 set_count newf cs)"
    by (rule mark_true) (rule kq)
  show ?thesis
    apply (simp only: Let_def kept)
    apply (simp only: fk)
    apply (simp only: counted)
    apply (simp only: map_append m1 m2 m3 n)
    apply (simp only: Q_def)
    done
qed

lemma step_concat_result:
  assumes ne: "features e \<noteq> []"
    and dk: "distinct (map key_of (features e))" and rel: "relabelled (features e)"
    and step: "set_features_step rl e m = Inr e'"
  shows "\<exists>c feats. m = CobraModel c
          \<and> distinct (map key_of feats)
          \<and> key_of ` set feats = set (model_keys rl m)
          \<and> e' = e\<lparr>features := features e @ new_rows (features e) feats,
                   states := fillna_False (concat_frames (states e)
                      \<lparr>columns = map index_label (features e @ new_rows (features e) feats),
                       rows = [(model_id c, map (\<lambda>f. Some (key_of f \<in> key_of ` set feats))
                                   (features e @ new_rows (features e) feats))]\<rparr>)\<rparr>"
proof -
  from step obtain c where m: "m = CobraModel c"
    by (cases m) (auto simp: set_features_step_def)
  from step m obtain feats where
    vr: "variable_reactions (reactions c) [] (filter (\<lambda>r. rxn_id r \<notin> set rl) (reactions c)) = Inr feats"
    by (auto simp: set_features_step_def Let_def split: sum.splits)
  have dkf: "distinct (map key_of feats)"
    using model_frame(1,2) [OF vr] by (rule model_frame_distinct_keys)
  have kf: "key_of ` set feats = set (model_keys rl m)"
    using model_frame(3) [OF vr] m by simp
  have lp: "0 < length (features e)" using ne by simp
  note M = marked_rows [OF dk dkf rel, unfolded Let_def]
  from step have "e' = e\<lparr>features := features e @ new_rows (features e) feats,
                   states := fillna_False (concat_frames (states e)
                      \<lparr>columns = map index_label (features e @ new_rows (features e) feats),
                       rows = [(model_id c, map (\<lambda>f. Some (key_of f \<in> key_of ` set feats))
                                   (features e @ new_rows (features e) feats))]\<rparr>)\<rparr>"
    apply (simp only: set_features_step_def Let_def m get_reactions.simps sum.case vr lp if_True
             get_id.simps M)
    apply (simp add: comp_def)
    done
  then show ?thesis using m dkf kf by blast
qed

lemma reindex_same:
  "distinct (map l xs) \<Longrightarrow> map (cell_at (map l xs) (map F xs)) (map l xs) = map F xs"
  unfolding map_map by (rule map_cong [OF refl]) (simp add: cell_at_map)

lemma reindex_old:
  assumes "distinct (map l (xs @ ys))"
  shows "map (cell_at (map l xs) (map F xs)) (map l (xs @ ys)) = map F xs @ map (\<lambda>_. None) ys"
proof -
  have d: "distinct (map l xs)" using assms by simp
  have "y \<in> set ys \<Longrightarrow> l y \<notin> set (map l xs)" for y
    using assms by auto
  then have "map (cell_at (map l xs) (map F xs)) (map l ys) = map (\<lambda>_. None) ys"
    unfolding map_map by (intro map_cong [OF refl]) (simp add: cell_at_missing)
  then show ?thesis using reindex_same [OF d, of F] by simp
qed

lemma key_of_map2_set_count:
  "length cs = length xs \<Longrightarrow> map key_of (map2 set_count xs cs) = map key_of xs"
  by (induction xs cs rule: list_induct2') auto

lemma key_of_new_rows:
  "map key_of (new_rows old feats) = map key_of (filter (\<lambda>f. key_of f \<notin> key_of ` set old) feats)"
  unfolding new_rows_def Let_def by (rule key_of_map2_set_count) simp

lemma step_concat_consistent:
  assumes ne: "features e \<noteq> []" and con: "consistent rl ms e"
    and step: "set_features_step rl e m = Inr e'"
  shows "consistent rl (ms @ [m]) e' \<and> features e' \<noteq> []"
proof -
  let ?old = "features e"
  have dk: "distinct (map key_of ?old)" and rel: "relabelled ?old"
    and ks: "key_of ` set ?old = (\<Union>m\<in>set ms. set (model_keys rl m))"
    and cols: "columns (states e) = map index_label ?old"
    and rws: "rows (states e) = map (member_row rl ?old) ms"
    using con by (auto simp: consistent_def)
  from step_concat_result [OF ne dk rel step] obtain c feats where
    m: "m = CobraModel c" and dkf: "distinct (map key_of feats)"
    and kf: "key_of ` set feats = set (model_keys rl m)"
    and e': "e' = e\<lparr>features := ?old @ new_rows ?old feats,
                   states := fillna_False (concat_frames (states e)
                      \<lparr>columns = map index_label (?old @ new_rows ?old feats),
                       rows = [(model_id c, map (\<lambda>f. Some (key_of f \<in> key_of ` set feats))
                                   (?old @ new_rows ?old feats))]\<rparr>)\<rparr>"
    by blast
  let ?new = "new_rows ?old feats"
  let ?fs = "?old @ ?new"
  have f': "features e' = ?fs" using e' by simp
  have kn: "key_of ` set ?new = set (model_keys rl m) - key_of ` set ?old"
  proof -
    have "key_of ` set ?new = set (map key_of ?new)" by simp
    also have "\<dots> = set (map key_of (filter (\<lambda>f. key_of f \<notin> key_of ` set ?old) feats))"
      by (simp only: key_of_new_rows)
    also have "\<dots> = key_of ` set feats - key_of ` set ?old" by auto (metis imageI)
    finally show ?thesis using kf by simp
  qed
  have d1: "distinct (map key_of ?fs)"
  proof -
    have "distinct (map key_of ?new)"
      using dkf by (simp add: key_of_new_rows distinct_map_filter)
    moreover have "set (map key_of ?old) \<inter> set (map key_of ?new) = {}"
      using kn by auto
    ultimately show ?thesis using dk by simp
  qed
  have k1: "key_of ` set ?fs = (\<Union>m\<in>set (ms @ [m]). set (model_keys rl m))"
  proof -
    have "key_of ` set ?fs = key_of ` set ?old \<union> key_of ` set ?new" by (simp add: image_Un)
    also have "\<dots> = (\<Union>m\<in>set ms. set (model_keys rl m)) \<union> set (model_keys rl m)"
      unfolding kn ks by blast
    finally show ?thesis by auto
  qed
  have r1: "relabelled ?fs" using rel by (rule relabelled_append)
  have dl: "distinct (map index_label ?fs)" using r1 by (rule relabelled_distinct_labels)
  have nl: "filter (\<lambda>c. c \<notin> set (map index_label ?old)) (map index_label ?fs) = map index_label ?new"
  proof -
    have "filter (\<lambda>c. c \<notin> set (map index_label ?old)) (map index_label ?old) = []"
      by (simp add: filter_empty_conv)
    moreover have "filter (\<lambda>c. c \<notin> set (map index_label ?old)) (map index_label ?new) = map index_label ?new"
      using dl by (auto simp: filter_id_conv)
    ultimately show ?thesis by simp
  qed
  have c1: "columns (states e') = map index_label ?fs"
    using e' cols nl by (simp add: fillna_False_def concat_frames_def Let_def)
  define fill :: "string \<times> bool option list \<Rightarrow> string \<times> bool option list"
    where "fill = (\<lambda>(l, cells). (l, map (\<lambda>v. case v of None \<Rightarrow> Some False | Some x \<Rightarrow> Some x) cells))"
  define ra :: "string \<times> bool option list \<Rightarrow> string \<times> bool option list"
    where "ra = (\<lambda>(l, cells). (l, map (cell_at (map index_label ?old) cells) (map index_label ?fs)))"
  define rb :: "string \<times> bool option list \<Rightarrow> string \<times> bool option list"
    where "rb = (\<lambda>(l, cells). (l, map (cell_at (map index_label ?fs) cells) (map index_label ?fs)))"
  have old_row: "fill (ra (member_row rl ?old m')) = member_row rl ?fs m'" if "m' \<in> set ms" for m'
  proof -
    have "f \<in> set ?new \<Longrightarrow> key_of f \<notin> set (model_keys rl m')" for f
      using kn ks that by auto
    then have "map (\<lambda>f. Some False) ?new = map (\<lambda>f. Some (key_of f \<in> set (model_keys rl m'))) ?new"
      by (intro map_cong [OF refl]) simp
    then show ?thesis
      using reindex_old [OF dl, of "\<lambda>f. Some (key_of f \<in> set (model_keys rl m'))"]
      by (simp add: member_row_def comp_def fill_def ra_def)
  qed
  have new_row: "fill (rb (model_id c, map (\<lambda>f. Some (key_of f \<in> key_of ` set feats)) ?fs))
                 = member_row rl ?fs m"
    using reindex_same [OF dl, of "\<lambda>f. Some (key_of f \<in> key_of ` set feats)"] kf m
    by (simp add: member_row_def member_id_def comp_def fill_def rb_def)
  have rw1: "rows (states e') = map (member_row rl ?fs) (ms @ [m])"
  proof -
    have "rows (states e') =
        map fill (map ra (map (member_row rl ?old) ms))
        @ [fill (rb (model_id c, map (\<lambda>f. Some (key_of f \<in> key_of ` set feats)) ?fs))]"
      using e' cols rws nl
      by (simp add: fillna_False_def concat_frames_def Let_def comp_def fill_def ra_def rb_def)
    also have "\<dots> = map (member_row rl ?fs) ms @ [member_row rl ?fs m]"
      unfolding new_row by (simp add: old_row cong: map_cong)
    finally show ?thesis by simp
  qed
  show ?thesis
    unfolding consistent_def f' using d1 k1 r1 c1 rw1 ne by (simp add: f')
qed

lemma cumcount_distinct:
  "distinct (map model_identifier fs) \<Longrightarrow>
     cumcount seen fs = map (\<lambda>f. length (filter (\<lambda>g. model_identifier g = model_identifier f) seen)) fs"
proof (induction fs arbitrary: seen)
  case Nil
  then show ?case by simp
next
  case (Cons f fs)
  have "map (\<lambda>h. length (filter (\<lambda>g. model_identifier g = model_identifier h) (seen @ [f]))) fs
      = map (\<lambda>h. length (filter (\<lambda>g. model_identifier g = model_identifier h) seen)) fs"
    using Cons.prems by (intro map_cong [OF refl]) auto
  then show ?case using Cons by simp
qed

lemma map2_set_count_const:
  "map2 set_count (map (\<lambda>f. set_count f c) xs) (replicate (length xs) c) = map (\<lambda>f. set_count f c) xs"
  by (induction xs) auto

lemma relabelled_first:
  assumes "distinct (map model_identifier feats)"
  shows "relabelled (map (\<lambda>f. set_count f 0) feats)"
proof -
  have "cumcount [] (map (\<lambda>f. set_count f 0) feats) = map (\<lambda>f. 0) (map (\<lambda>f. set_count f 0) feats)"
    using cumcount_distinct [of "map (\<lambda>f. set_count f 0) feats" "[]"] assms
    by (simp add: comp_def)
  also have "\<dots> = replicate (length feats) 0"
    by (simp add: map_replicate_const)
  finally show ?thesis
    unfolding relabelled_def by (simp only: map2_set_count_const)
qed

lemma step_first_consistent:
  assumes e: "features e = []" "states e = empty_frame"
    and step: "set_features_step rl e m = Inr e'"
  shows "consistent rl [m] e' \<and> features e' \<noteq> []"
proof -
  from step obtain c where m: "m = CobraModel c"
    by (cases m) (auto simp: set_features_step_def)
  from step m obtain feats where
    vr: "variable_reactions (reactions c) [] (filter (\<lambda>r. rxn_id r \<notin> set rl) (reactions c)) = Inr feats"
    by (auto simp: set_features_step_def Let_def split: sum.splits)
  have dl: "distinct (map index_label feats)" and ok: "\<forall>f\<in>set feats. row_ok (reactions c) rl f"
    using model_frame(1,2) [OF vr] by auto
  have dkf: "distinct (map key_of feats)"
    using dl ok by (rule model_frame_distinct_keys)
  have kf: "key_of ` set feats = set (model_keys rl m)"
    using model_frame(3) [OF vr] m by simp
  have mm: "map model_identifier feats = map index_label feats"
    using ok by (intro map_cong [OF refl]) (simp add: row_ok_def)
  have dm: "distinct (map model_identifier feats)" unfolding mm by (rule dl)
  let ?fs = "map (\<lambda>f. set_count f 0) feats"
  have ne: "feats \<noteq> []"
    using step m vr e by (auto simp: set_features_step_def Let_def)
  have e': "e' = e\<lparr>features := ?fs,
                    states := \<lparr>columns = map index_label ?fs,
                               rows = [(model_id c, replicate (length feats) (Some True))]\<rparr>\<rparr>"
    using step m vr e ne
    by (simp add: set_features_step_def Let_def join_outer_def set_columns_def empty_frame_def
          list_ex_iff comp_def)
  have k: "map key_of ?fs = map key_of feats" by (simp add: comp_def)
  have row: "(model_id c, replicate (length feats) (Some True)) = member_row rl ?fs m"
  proof -
    have "f \<in> set feats \<Longrightarrow> key_of f \<in> set (model_keys rl m)" for f
      using kf by auto
    then have "map (\<lambda>f. Some (key_of f \<in> set (model_keys rl m))) feats = map (\<lambda>f. Some True) feats"
      by (intro map_cong [OF refl]) simp
    then show ?thesis
      by (simp add: member_row_def member_id_def m comp_def map_replicate_const)
  qed
  have "distinct (map key_of ?fs)" unfolding k by (rule dkf)
  moreover have "key_of ` set ?fs = (\<Union>m\<in>set [m]. set (model_keys rl m))"
    using kf k by (metis (no_types) UN_insert Un_empty_right Union_image_empty list.set(1) list.set(2) list.set_map)
  moreover have "relabelled ?fs" using dm by (rule relabelled_first)
  ultimately show ?thesis
    using e' row ne by (simp add: consistent_def)
qed

lemma loop_consistent:
  "set_features_loop rl e ms = Inr e' \<Longrightarrow> features e \<noteq> [] \<Longrightarrow> consistent rl done e \<Longrightarrow>
     consistent rl (done @ ms) e' \<and> features e' \<noteq> []"
proof (induction ms arbitrary: e "done")
  case Nil
  then show ?case by simp
next
  case (Cons m ms)
  from Cons.prems(1) obtain e1 where s: "set_features_step rl e m = Inr e1"
    and l: "set_features_loop rl e1 ms = Inr e'"
    by (auto split: sum.splits)
  from step_concat_consistent [OF Cons.prems(2,3) s]
  have "consistent rl (done @ [m]) e1" "features e1 \<noteq> []" by auto
  from Cons.IH [OF l this(2,1)] show ?case by simp
qed

lemma consistent_fresh:
  "features e = [] \<Longrightarrow> states e = empty_frame \<Longrightarrow> consistent rl [] e"
  by (simp add: consistent_def relabelled_def empty_frame_def)

lemma set_features_states_consistent:
  assumes fresh: "features e = []" "states e = empty_frame"
    and len: "length ms \<noteq> 1"
    and res: "set_features_states e ms = Inr e'"
  shows "\<exists>rl. reaction_set_loop [] ms = Inr rl \<and> consistent rl ms e'"
proof -
  from res len obtain rl where rl: "reaction_set_loop [] ms = Inr rl"
    and l: "set_features_loop rl e ms = Inr e'"
    by (auto simp: set_features_states_def split: sum.splits)
  have "consistent rl ms e'"
  proof (cases ms)
    case Nil
    then show ?thesis using l fresh consistent_fresh by auto
  next
    case (Cons m rest)
    from l Cons obtain e1 where s: "set_features_step rl e m = Inr e1"
      and l1: "set_features_loop rl e1 rest = Inr e'"
      by (auto split: sum.splits)
    from step_first_consistent [OF fresh s]
    have "consistent rl [m] e1" "features e1 \<noteq> []" by auto
    from loop_consistent [OF l1 this(2,1)] show ?thesis using Cons by simp
  qed
  then show ?thesis using rl by blast
qed

lemma reaction_set_loop_keeps:
  "reaction_set_loop S ms = Inr rl \<Longrightarrow> x \<in> set S \<Longrightarrow> \<forall>m\<in>set ms. x \<in> reaction_ids m \<Longrightarrow>
     x \<in> set rl"
proof (induction ms arbitrary: S)
  case Nil
  then show ?case by simp
next
  case (Cons m ms)
  from Cons.prems(1) obtain c where m: "m = CobraModel c" by (cases m) auto
  have xm: "x \<in> set (remdups (map rxn_id (reactions c)))"
    using Cons.prems(3) m by (simp add: reaction_ids_def)
  have ne: "length S > 0" using Cons.prems(2) by (cases S) auto
  have "reaction_set_loop (filter (\<lambda>r. r \<in> set (remdups (map rxn_id (reactions c)))) S) ms = Inr rl"
    using Cons.prems(1) m ne by (simp add: Let_def)
  moreover have "x \<in> set (filter (\<lambda>r. r \<in> set (remdups (map rxn_id (reactions c)))) S)"
    using Cons.prems(2) xm by simp
  ultimately show ?case using Cons.IH Cons.prems(3) by auto
qed

lemma common_reactions_in_list:
  assumes "reaction_set_loop [] ms = Inr rl" "ms \<noteq> []" "\<forall>m\<in>set ms. x \<in> reaction_ids m"
  shows "x \<in> set rl"
proof -
  from assms(2) obtain m rest where ms: "ms = m # rest" by (cases ms) auto
  from assms(1) ms obtain c where m: "m = CobraModel c" by (cases m) auto
  have "reaction_set_loop (remdups (map rxn_id (reactions c))) rest = Inr rl"
    using assms(1) ms m by (simp add: Let_def)
  moreover have "x \<in> set (remdups (map rxn_id (reactions c)))"
    using assms(3) ms m by (simp add: reaction_ids_def)
  ultimately show ?thesis using reaction_set_loop_keeps assms(3) ms by auto
qed

lemma find_distinct:
  "distinct (map f xs) \<Longrightarrow> x \<in> set xs \<Longrightarrow> find (\<lambda>y. f y = f x) xs = Some x"
proof (induction xs)
  case Nil
  then show ?case by simp
next
  case (Cons a xs)
  then show ?case by (auto simp: image_iff)
qed

lemma model_keys_member:
  assumes "distinct (map rxn_id (reactions c))" "r \<in> set (reactions c)" "rxn_id r \<notin> set rl"
  shows "(lower_bound r, upper_bound r, ''reaction'', rxn_id r) \<in> set (model_keys rl (CobraModel c))"
proof -
  have "find (\<lambda>x. rxn_id x = rxn_id r) (reactions c) = Some r"
    using find_distinct [OF assms(1,2)] .
  then have "(lower_bound r, upper_bound r, ''reaction'', rxn_id r)
      \<in> set (case find (\<lambda>x. rxn_id x = rxn_id r) (reactions c) of
                None \<Rightarrow> []
              | Some q \<Rightarrow> [(lower_bound q, upper_bound q, ''reaction'', rxn_id r)])"
    by simp
  moreover have "r \<in> set (filter (\<lambda>r. rxn_id r \<notin> set rl) (reactions c))"
    using assms(2,3) by simp
  ultimately show ?thesis
    unfolding model_keys_def pyobj.case set_concat set_map by (rule UN_I [rotated, OF _ imageI])
qed

lemma model_keys_origin:
  assumes "k \<in> set (model_keys rl m)"
  shows "\<exists>c q. m = CobraModel c \<and> q \<in> set (reactions c) \<and> rxn_id q \<notin> set rl
           \<and> k = (lower_bound q, upper_bound q, ''reaction'', rxn_id q)"
proof (cases m)
  case NotAModel
  then show ?thesis using assms by (simp add: model_keys_def)
next
  case (CobraModel c)
  from model_keys_row [OF assms [unfolded CobraModel]]
  obtain r :: reaction and q where r: "r \<in> set (reactions c)" "rxn_id r \<notin> set rl"
    and q: "find (\<lambda>x. rxn_id x = rxn_id r) (reactions c) = Some q"
    and k: "k = (lower_bound q, upper_bound q, ''reaction'', rxn_id r)"
    by blast
  from q have "q \<in> set (reactions c)" "rxn_id q = rxn_id r"
    by (auto simp: find_Some_iff)
  then show ?thesis using CobraModel r k by auto
qed

lemma consistent_features:
  assumes "consistent rl ms e"
  shows "\<forall>f\<in>set (features e). f_type f = ''reaction'' \<and> model_identifier f \<notin> set rl
            \<and> (\<exists>c r. CobraModel c \<in> set ms \<and> r \<in> set (reactions c)
                  \<and> rxn_id r = model_identifier f
                  \<and> lower_bound r = f_lower_bound f \<and> upper_bound r = f_upper_bound f)"
    and "\<forall>c r. CobraModel c \<in> set ms \<and> distinct (map rxn_id (reactions c))
            \<and> r \<in> set (reactions c) \<and> rxn_id r \<notin> set rl
          \<longrightarrow> (\<exists>f\<in>set (features e). key_of f = (lower_bound r, upper_bound r, ''reaction'', rxn_id r))"
proof -
  have ks: "key_of ` set (features e) = (\<Union>m\<in>set ms. set (model_keys rl m))"
    using assms by (simp add: consistent_def)
  show "\<forall>f\<in>set (features e). f_type f = ''reaction'' \<and> model_identifier f \<notin> set rl
            \<and> (\<exists>c r. CobraModel c \<in> set ms \<and> r \<in> set (reactions c)
                  \<and> rxn_id r = model_identifier f
                  \<and> lower_bound r = f_lower_bound f \<and> upper_bound r = f_upper_bound f)"
  proof
    fix f assume "f \<in> set (features e)"
    then have "key_of f \<in> (\<Union>m\<in>set ms. set (model_keys rl m))" using ks by blast
    then obtain m where m: "m \<in> set ms" "key_of f \<in> set (model_keys rl m)" by blast
    from model_keys_origin [OF m(2)] obtain c q where
      "m = CobraModel c" "q \<in> set (reactions c)" "rxn_id q \<notin> set rl"
      "key_of f = (lower_bound q, upper_bound q, ''reaction'', rxn_id q)" by blast
    then show "f_type f = ''reaction'' \<and> model_identifier f \<notin> set rl
            \<and> (\<exists>c r. CobraModel c \<in> set ms \<and> r \<in> set (reactions c)
                  \<and> rxn_id r = model_identifier f
                  \<and> lower_bound r = f_lower_bound f \<and> upper_bound r = f_upper_bound f)"
      using m(1) by (auto simp: key_of_def)
  qed
  show "\<forall>c r. CobraModel c \<in> set ms \<and> distinct (map rxn_id (reactions c))
            \<and> r \<in> set (reactions c) \<and> rxn_id r \<notin> set rl
          \<longrightarrow> (\<exists>f\<in>set (features e). key_of f = (lower_bound r, upper_bound r, ''reaction'', rxn_id r))"
  proof (intro allI impI)
    fix c r
    assume a: "CobraModel c \<in> set ms \<and> distinct (map rxn_id (reactions c))
            \<and> r \<in> set (reactions c) \<and> rxn_id r \<notin> set rl"
    then have "(lower_bound r, upper_bound r, ''reaction'', rxn_id r) \<in> set (model_keys rl (CobraModel c))"
      using model_keys_member [of c r rl] by simp
    moreover have "CobraModel c \<in> set ms" using a by simp
    ultimately have "(lower_bound r, upper_bound r, ''reaction'', rxn_id r) \<in> key_of ` set (features e)"
      unfolding ks by (rule UN_I [rotated])
    then obtain f where "f \<in> set (features e)" "(lower_bound r, upper_bound r, ''reaction'', rxn_id r) = key_of f"
      by (rule imageE)
    then show "\<exists>f\<in>set (features e). key_of f = (lower_bound r, upper_bound r, ''reaction'', rxn_id r)"
      by (intro bexI [of _ f]) simp_all
  qed
qed

lemma true_features_map:
  "true_features fs (map (\<lambda>f. Some (P f)) fs) = filter P fs"
  unfolding true_features_def by (induction fs) auto

lemma consistent_exclusive:
  assumes "consistent rl ms e"
  shows "states_exclusive e"
proof -
  let ?fs = "features e"
  have dk: "distinct (map key_of ?fs)" and rel: "relabelled ?fs"
    and cols: "columns (states e) = map index_label ?fs"
    and rws: "rows (states e) = map (member_row rl ?fs) ms"
    using assms by (auto simp: consistent_def)
  have dfs: "distinct ?fs" and inj: "inj_on key_of (set ?fs)"
    using dk by (auto simp: distinct_map)
  have dl: "distinct (columns (states e))"
    unfolding cols using rel by (rule relabelled_distinct_labels)
  have row: "length (snd (member_row rl ?fs m)) = length ?fs
     \<and> distinct (map model_identifier (true_features ?fs (snd (member_row rl ?fs m))))" for m
  proof -
    let ?P = "\<lambda>f. key_of f \<in> set (model_keys rl m)"
    have "inj_on model_identifier (set (filter ?P ?fs))"
    proof (rule inj_onI)
      fix f g assume f: "f \<in> set (filter ?P ?fs)" and g: "g \<in> set (filter ?P ?fs)"
        and e: "model_identifier f = model_identifier g"
      have "snd (snd (snd (key_of f))) = snd (snd (snd (key_of g)))"
        using e by (simp add: key_of_def)
      then have "key_of f = key_of g"
        using model_keys_functional [of "key_of f" rl m "key_of g"] f g by simp
      then show "f = g" using inj f g by (auto dest: inj_onD)
    qed
    moreover have "distinct (filter ?P ?fs)" using dfs by simp
    ultimately have "distinct (map model_identifier (filter ?P ?fs))"
      by (simp add: distinct_map)
    then show ?thesis
      by (simp add: member_row_def true_features_map)
  qed
  have "list_all (\<lambda>(l, cells). length cells = length ?fs
                   \<and> distinct (map model_identifier (true_features ?fs cells)))
          (map (member_row rl ?fs) ms)"
    unfolding list_all_iff using row by (auto simp: split_def)
  then show ?thesis
    unfolding states_exclusive_def using cols dl rws by simp
qed

lemma states_exclusive_empty:
  "features e = [] \<Longrightarrow> states e = empty_frame \<Longrightarrow> states_exclusive e"
  by (simp add: states_exclusive_def empty_frame_def)

lemma set_features_states_exclusive:
  assumes "features e = []" "states e = empty_frame" "set_features_states e ms = Inr e'"
  shows "states_exclusive e'"
proof (cases "length ms = 1")
  case True
  then show ?thesis
    using assms(3) by (auto simp: set_features_states_def intro: states_exclusive_empty)
next
  case False
  from set_features_states_consistent [OF assms(1,2) False assms(3)]
  show ?thesis using consistent_exclusive by blast
qed

lemma construct_concurrent_exclusive:
  assumes "construct_concurrent base_id model_list = Inr e"
  shows "states_exclusive e"
proof (cases model_list)
  case None
  then show ?thesis
    using assms by (auto simp: construct_concurrent_def intro: states_exclusive_empty)
next
  case (Some ml)
  show ?thesis
  proof (cases "ml = []")
    case True
    then show ?thesis
      using assms Some by (auto simp: construct_concurrent_def intro: states_exclusive_empty)
  next
    case False
    then obtain b where
      "set_features_states \<lparr>ens_id = base_id, base_model = CobraModel b, features = [],
          states = empty_frame\<rparr> ml = Inr e"
      using assms Some by (auto simp: construct_concurrent_def Let_def split: sum.splits)
    then show ?thesis
      by (rule set_features_states_exclusive [rotated 2]) simp_all
  qed
qed

lemma states_exclusive_cong:
  "features a = features b \<Longrightarrow> states a = states b \<Longrightarrow> states_exclusive a = states_exclusive b"
  by (simp add: states_exclusive_def)

lemma update_exclusive:
  assumes "states_exclusive old"
  shows "states_exclusive (snd (update_features_states model_iter old ml))"
proof (cases "length (features old) < 1")
  case True
  show ?thesis
  proof (cases "construct_concurrent (ens_id old) (Some (base_model old # ml))")
    case (Inl x)
    then show ?thesis using True assms by (simp add: update_features_states_def)
  next
    case (Inr new)
    then have "states_exclusive new" by (rule construct_concurrent_exclusive)
    moreover have "snd (update_features_states model_iter old ml)
        = old\<lparr>base_model := base_model new, features := features new, states := states new\<rparr>"
      using True Inr by (simp add: update_features_states_def)
    ultimately show ?thesis
      using states_exclusive_cong [of "old\<lparr>base_model := base_model new, features := features new,
           states := states new\<rparr>" new]
      by simp
  qed
next
  case False
  then have "snd (update_features_states model_iter old ml) = old"
    by (simp add: update_features_states_def Let_def split: sum.splits pyobj.splits list.splits)
  then show ?thesis using assms by simp
qed

lemma iterative_loop_exclusive:
  "iterative_loop model_iter ml js is self = Inr e \<Longrightarrow> states_exclusive self \<Longrightarrow> states_exclusive e"
proof (induction "is" arbitrary: self)
  case Nil
  then show ?case by simp
next
  case (Cons i "is")
  let ?u = "update_features_states model_iter self (slice ml ((i + 1) * js) (i + 2 * js))"
  from Cons.prems(1) have f: "fst ?u = None" and l: "iterative_loop model_iter ml js is (snd ?u) = Inr e"
    by (auto simp: Let_def split: prod.splits option.splits)
  have "states_exclusive (snd ?u)" using Cons.prems(2) by (rule update_exclusive)
  from Cons.IH [OF l this] show ?case .
qed

subsection \<open>Features come from the reactions that some model lacks\<close>

lemma construct_XYZ:
  "construct_concurrent ''ens'' (Some [modelX, modelY, modelZ]) = Inr ensemble_XYZ"
  by (simp add: eval_defs ensemble_XYZ_def modelX_def modelY_def modelZ_def)

text \<open>
  The first loop computes the reactions present in all models as long as the running
  intersection is not empty when a further model is read, that is, as long as the
  models of every proper prefix of the list have a reaction in common.
\<close>

lemma reaction_set_loop_intersection:
  "reaction_set_loop S ms = Inr rl \<Longrightarrow>
   (\<forall>k<length ms. set S \<inter> (\<Inter>m\<in>set (take k ms). reaction_ids m) \<noteq> {}) \<Longrightarrow>
   set rl = set S \<inter> (\<Inter>m\<in>set ms. reaction_ids m)"
proof (induction ms arbitrary: S)
  case Nil
  then show ?case by simp
next
  case (Cons m ms)
  from Cons.prems(1) obtain c where m: "m = CobraModel c" by (cases m) auto
  have "set S \<noteq> {}" using Cons.prems(2) [rule_format, of 0] by simp
  then have ne: "length S > 0" by (cases S) auto
  let ?S = "filter (\<lambda>r. r \<in> set (remdups (map rxn_id (reactions c)))) S"
  have rec: "reaction_set_loop ?S ms = Inr rl"
    using Cons.prems(1) m ne by (simp add: Let_def)
  have sS: "set ?S = set S \<inter> reaction_ids m"
    using m by (auto simp: reaction_ids_def)
  have "\<forall>k<length ms. set ?S \<inter> (\<Inter>m\<in>set (take k ms). reaction_ids m) \<noteq> {}"
  proof (intro allI impI)
    fix k assume "k < length ms"
    then have "set S \<inter> (\<Inter>x\<in>set (take (Suc k) (m # ms)). reaction_ids x) \<noteq> {}"
      using Cons.prems(2) [rule_format, of "Suc k"] by simp
    then show "set ?S \<inter> (\<Inter>m\<in>set (take k ms). reaction_ids m) \<noteq> {}"
      unfolding sS by (simp add: Int_assoc)
  qed
  from Cons.IH [OF rec this] show ?case
    unfolding sS by (simp add: Int_assoc)
qed

lemma common_reaction_list_is_intersection:
  assumes rl: "reaction_set_loop [] ms = Inr rl" and ne: "ms \<noteq> []"
    and pre: "\<forall>k. 0 < k \<and> k < length ms \<longrightarrow> (\<exists>x. \<forall>m\<in>set (take k ms). x \<in> reaction_ids m)"
  shows "set rl = (\<Inter>m\<in>set ms. reaction_ids m)"
proof -
  from ne obtain m rest where ms: "ms = m # rest" by (cases ms) auto
  from rl ms obtain c where m: "m = CobraModel c" by (cases m) auto
  let ?S = "remdups (map rxn_id (reactions c))"
  have rec: "reaction_set_loop ?S rest = Inr rl"
    using rl ms m by (simp add: Let_def)
  have sS: "set ?S = reaction_ids m" using m by (simp add: reaction_ids_def)
  have "\<forall>k<length rest. set ?S \<inter> (\<Inter>m\<in>set (take k rest). reaction_ids m) \<noteq> {}"
  proof (intro allI impI)
    fix k assume k: "k < length rest"
    then obtain x where "\<forall>y\<in>set (take (Suc k) ms). x \<in> reaction_ids y"
      using pre [rule_format, of "Suc k"] ms by auto
    then have "x \<in> set ?S \<inter> (\<Inter>m\<in>set (take k rest). reaction_ids m)"
      unfolding sS using ms by simp
    then show "set ?S \<inter> (\<Inter>m\<in>set (take k rest). reaction_ids m) \<noteq> {}" by blast
  qed
  from reaction_set_loop_intersection [OF rec this] show ?thesis
    unfolding sS using ms by simp
qed


text \<open>
  C1, as the code has it. Let the constructor, with its default join method, return
  an ensemble for two or more models, the models of every proper prefix of the list
  having a reaction in common. Then the features are those of the reactions that
  are not present in all models: every feature is of type reaction, at a reaction
  that some model lacks, with the identifier and bounds of a reaction of some
  model; every reaction of a model that some model lacks has a feature with its
  identifier and bounds, and no two features agree on bounds, type and identifier,
  so there is one feature per distinct combination; a reaction present in all
  models has no feature, whatever its bounds. The states have one column per
  feature and one row per model, true exactly at the features that are the
  model's own variants.
\<close>

theorem features_of_reactions_missing_from_a_model:
  assumes "2 \<le> length model_list"
    and "\<forall>k. 0 < k \<and> k < length model_list \<longrightarrow>
             (\<exists>x. \<forall>m\<in>set (take k model_list). x \<in> reaction_ids m)"
    and "Ensemble_init model_iter base_id (Some model_list) ''concurrent'' join_size = Inr e"
  shows "(\<forall>f\<in>set (features e). f_type f = ''reaction''
            \<and> (\<exists>m\<in>set model_list. model_identifier f \<notin> reaction_ids m)
            \<and> (\<exists>c r. CobraModel c \<in> set model_list \<and> r \<in> set (reactions c)
                  \<and> rxn_id r = model_identifier f
                  \<and> lower_bound r = f_lower_bound f \<and> upper_bound r = f_upper_bound f))
     \<and> (\<forall>c r. CobraModel c \<in> set model_list \<and> distinct (map rxn_id (reactions c))
            \<and> r \<in> set (reactions c) \<and> (\<exists>m\<in>set model_list. rxn_id r \<notin> reaction_ids m)
          \<longrightarrow> (\<exists>f\<in>set (features e). key_of f = (lower_bound r, upper_bound r, ''reaction'', rxn_id r)))
     \<and> distinct (map key_of (features e))
     \<and> columns (states e) = map index_label (features e)
     \<and> (\<exists>common. set common = (\<Inter>m\<in>set model_list. reaction_ids m)
            \<and> rows (states e) = map (member_row common (features e)) model_list)"
proof -
  have ne: "model_list \<noteq> []" and l1: "length model_list \<noteq> 1" using assms(1) by auto
  from assms(3) ne obtain b where
    s: "set_features_states \<lparr>ens_id = base_id, base_model = CobraModel b, features = [],
          states = empty_frame\<rparr> model_list = Inr e"
    by (auto simp: Ensemble_init_def construct_concurrent_def Let_def split: sum.splits)
  from set_features_states_consistent [OF _ _ l1 s]
  obtain rl where rl: "reaction_set_loop [] model_list = Inr rl" and c: "consistent rl model_list e"
    by auto
  have srl: "set rl = (\<Inter>m\<in>set model_list. reaction_ids m)"
    using rl ne assms(2) by (rule common_reaction_list_is_intersection)
  have out: "x \<notin> set rl \<longleftrightarrow> (\<exists>m\<in>set model_list. x \<notin> reaction_ids m)" for x
    unfolding srl by simp
  note cf = consistent_features [OF c, unfolded out]
  have "distinct (map key_of (features e))" "columns (states e) = map index_label (features e)"
    "rows (states e) = map (member_row rl (features e)) model_list"
    using c by (simp_all add: consistent_def)
  then show ?thesis
    using cf srl by blast
qed

theorem features_of_reactions_missing_from_a_model_witness:
  "2 \<le> length [modelX, modelY, modelZ]
   \<and> ''R2'' \<in> reaction_ids modelX \<and> ''R2'' \<in> reaction_ids modelY
   \<and> Ensemble_init cobra_iter ''ens'' (Some [modelX, modelY, modelZ]) ''concurrent'' 1 = Inr ensemble_XYZ
   \<and> f_type (features ensemble_XYZ ! 3) = ''reaction''
   \<and> (\<exists>m\<in>set [modelX, modelY, modelZ]. model_identifier (features ensemble_XYZ ! 3) \<notin> reaction_ids m)
   \<and> (\<exists>f\<in>set (features ensemble_XYZ). key_of f = (1, 10, ''reaction'', ''R3''))
   \<and> distinct (map key_of (features ensemble_XYZ))
   \<and> columns (states ensemble_XYZ) = map index_label (features ensemble_XYZ)
   \<and> (\<exists>common. set common = (\<Inter>m\<in>set [modelX, modelY, modelZ]. reaction_ids m)
          \<and> rows (states ensemble_XYZ) = map (member_row common (features ensemble_XYZ))
                                              [modelX, modelY, modelZ])"
proof -
  let ?ml = "[modelX, modelY, modelZ]"
  let ?z = "\<lparr>model_id = ''Z'',
      reactions = [\<lparr>rxn_id = ''R2'', lower_bound = 0, upper_bound = 5\<rparr>,
                   \<lparr>rxn_id = ''R4'', lower_bound = 0, upper_bound = 20\<rparr>,
                   \<lparr>rxn_id = ''R3'', lower_bound = 1, upper_bound = 10\<rparr>]\<rparr>"
  let ?r = "\<lparr>rxn_id = ''R3'', lower_bound = 1, upper_bound = 10\<rparr>"
  have l: "2 \<le> length ?ml" by simp
  have x: "''R2'' \<in> reaction_ids modelX" and y: "''R2'' \<in> reaction_ids modelY"
    by (simp_all add: reaction_ids_def modelX_def modelY_def)
  have p: "\<forall>k. 0 < k \<and> k < length ?ml \<longrightarrow>
             (\<exists>x. \<forall>m\<in>set (take k ?ml). x \<in> reaction_ids m)"
  proof (intro allI impI)
    fix k :: nat assume "0 < k \<and> k < length ?ml"
    then have "k = 1 \<or> k = 2" by auto
    then have "\<forall>m\<in>set (take k ?ml). ''R2'' \<in> reaction_ids m"
      using x y by (auto simp: numeral_2_eq_2)
    then show "\<exists>x. \<forall>m\<in>set (take k ?ml). x \<in> reaction_ids m" by blast
  qed
  have c: "Ensemble_init cobra_iter ''ens'' (Some ?ml) ''concurrent'' 1 = Inr ensemble_XYZ"
    using construct_XYZ by (simp add: Ensemble_init_def)
  note t = features_of_reactions_missing_from_a_model [OF l p c]
  have mem: "features ensemble_XYZ ! 3 \<in> set (features ensemble_XYZ)"
    by (simp add: ensemble_XYZ_def)
  from t mem have f1: "f_type (features ensemble_XYZ ! 3) = ''reaction''"
    and f2: "\<exists>m\<in>set ?ml. model_identifier (features ensemble_XYZ ! 3) \<notin> reaction_ids m"
    by blast+
  have z: "CobraModel ?z \<in> set ?ml" by (simp add: modelZ_def)
  have d: "distinct (map rxn_id (reactions ?z))" by simp
  have r: "?r \<in> set (reactions ?z)" by simp
  have o: "\<exists>m\<in>set ?ml. rxn_id ?r \<notin> reaction_ids m"
    by (simp add: reaction_ids_def modelX_def)
  from t have "\<forall>c r. CobraModel c \<in> set ?ml \<and> distinct (map rxn_id (reactions c))
            \<and> r \<in> set (reactions c) \<and> (\<exists>m\<in>set ?ml. rxn_id r \<notin> reaction_ids m)
          \<longrightarrow> (\<exists>f\<in>set (features ensemble_XYZ). key_of f = (lower_bound r, upper_bound r, ''reaction'', rxn_id r))"
    by (rule conjunct1 [OF conjunct2])
  from this [rule_format, of ?z ?r] z d r o
  have f3: "\<exists>f\<in>set (features ensemble_XYZ). key_of f = (1, 10, ''reaction'', ''R3'')"
    by simp
  from t have rest: "distinct (map key_of (features ensemble_XYZ))"
    "columns (states ensemble_XYZ) = map index_label (features ensemble_XYZ)"
    "\<exists>common. set common = (\<Inter>m\<in>set ?ml. reaction_ids m)
          \<and> rows (states ensemble_XYZ) = map (member_row common (features ensemble_XYZ)) ?ml"
    by blast+
  show ?thesis using l x y c f1 f2 f3 rest by blast
qed

text \<open>
  C1 as stated fails. For three models of \<open>R1\<close> with bounds (0,10), (0,10), (0,20) the
  constructor raises \<open>KeyError\<close>; and for \<open>modelX\<close>, \<open>modelY\<close>, \<open>modelZ\<close>, which all have
  \<open>R2\<close> with bounds (0,5), (0,10), (0,5), the ensemble has no feature at \<open>R2\<close>.
\<close>

theorem bounds_are_not_compared_counterexample:
  "Ensemble_init cobra_iter ''ens'' (Some [scenario_m1, scenario_m2, scenario_m3]) ''concurrent'' 1
     = Inl KeyError
   \<and> Ensemble_init cobra_iter ''ens'' (Some [modelX, modelY, modelZ]) ''concurrent'' 1
     = Inr ensemble_XYZ
   \<and> ''R2'' \<in> reaction_ids modelX \<and> ''R2'' \<in> reaction_ids modelY \<and> ''R2'' \<in> reaction_ids modelZ
   \<and> ''R2'' \<notin> set (map model_identifier (features ensemble_XYZ))"
proof (intro conjI)
  show "Ensemble_init cobra_iter ''ens'' (Some [scenario_m1, scenario_m2, scenario_m3]) ''concurrent'' 1
     = Inl KeyError"
    by (simp add: eval_defs scenario_m1_def scenario_m2_def scenario_m3_def)
  show "Ensemble_init cobra_iter ''ens'' (Some [modelX, modelY, modelZ]) ''concurrent'' 1
     = Inr ensemble_XYZ"
    using construct_XYZ by (simp add: Ensemble_init_def)
qed (simp_all add: reaction_ids_def modelX_def modelY_def modelZ_def ensemble_XYZ_def)

subsection \<open>No member uses two variants of a component\<close>

text \<open>
  C9, as the code has it. In every ensemble the constructor returns, under either
  join method, the columns of the states are the features and no member is true
  for two features of the same component; and \<open>update_features_states\<close> leaves an
  ensemble with that property in a state with that property.
\<close>

theorem states_mutually_exclusive:
  "(Ensemble_init model_iter base_id model_list join_method join_size = Inr e \<longrightarrow> states_exclusive e)
   \<and> (states_exclusive old_ensemble \<longrightarrow>
        states_exclusive (snd (update_features_states model_iter old_ensemble ml)))"
proof (intro conjI impI)
  assume "states_exclusive old_ensemble"
  then show "states_exclusive (snd (update_features_states model_iter old_ensemble ml))"
    by (rule update_exclusive)
next
  assume a: "Ensemble_init model_iter base_id model_list join_method join_size = Inr e"
  show "states_exclusive e"
  proof (cases "join_method = ''concurrent''")
    case True
    then have "construct_concurrent base_id model_list = Inr e"
      using a by (simp add: Ensemble_init_def)
    then show ?thesis by (rule construct_concurrent_exclusive)
  next
    case False
    then have it: "join_method = ''iterative''"
      using a by (auto simp: Ensemble_init_def split: if_splits)
    let ?self = "\<lparr>ens_id = base_id, base_model = empty_model (base_id @ ''_base_model''),
                   features = [], states = empty_frame\<rparr>"
    show ?thesis
    proof (cases "model_list = None \<or> model_list = Some []")
      case True
      then have "e = ?self" using a it by (auto simp: Ensemble_init_def Let_def)
      then show ?thesis by (simp add: states_exclusive_empty)
    next
      case False
      then obtain ml' where ml': "model_list = Some ml'" "ml' \<noteq> []" by (cases model_list) auto
      from a it ml' obtain self1 where
        s1: "set_features_states ?self (slice ml' 0 join_size) = Inr self1"
        by (auto simp: Ensemble_init_def Let_def split: sum.splits)
      have x1: "states_exclusive self1"
        by (rule set_features_states_exclusive [OF _ _ s1]) simp_all
      from a it ml' s1 obtain self2 where
        s2: "iterative_loop model_iter ml' join_size [0..<length ml' div join_size] self1 = Inr self2"
        by (auto simp: Ensemble_init_def Let_def split: sum.splits if_splits)
      have x2: "states_exclusive self2" using s2 x1 by (rule iterative_loop_exclusive)
      have "e = self2 \<or> e = snd (update_features_states model_iter self2
               (drop (length ml' - length ml' mod join_size) ml'))"
        using a it ml' s1 s2
        by (auto simp: Ensemble_init_def Let_def split: sum.splits if_splits prod.splits option.splits)
      then show ?thesis using x2 update_exclusive by auto
    qed
  qed
qed

theorem states_mutually_exclusive_witness:
  "Ensemble_init cobra_iter ''ens'' (Some [modelX, modelY, modelZ]) ''concurrent'' 1 = Inr ensemble_XYZ
   \<and> states_exclusive ensemble_XYZ
   \<and> states_exclusive ensemble_AB
   \<and> states_exclusive (snd (update_features_states cobra_iter ensemble_AB [modelC]))"
proof -
  have c: "Ensemble_init cobra_iter ''ens'' (Some [modelX, modelY, modelZ]) ''concurrent'' 1
             = Inr ensemble_XYZ"
    using construct_XYZ by (simp add: Ensemble_init_def)
  have ab: "Ensemble_init cobra_iter ''ens'' (Some [modelA, modelB]) ''concurrent'' 1
             = Inr ensemble_AB"
    using construct_AB by (simp add: Ensemble_init_def)
  have 1: "states_exclusive ensemble_XYZ"
    using states_mutually_exclusive [of cobra_iter "''ens''" "Some [modelX, modelY, modelZ]"
        "''concurrent''" 1 ensemble_XYZ] c by blast
  have 2: "states_exclusive ensemble_AB"
    using states_mutually_exclusive [of cobra_iter "''ens''" "Some [modelA, modelB]"
        "''concurrent''" 1 ensemble_AB] ab by blast
  have 3: "states_exclusive (snd (update_features_states cobra_iter ensemble_AB [modelC]))"
    using states_mutually_exclusive [of cobra_iter "''ens''" "Some [modelA, modelB]"
        "''concurrent''" 1 ensemble_AB ensemble_AB "[modelC]"] 2 by blast
  show ?thesis using c 1 2 3 by blast
qed

text \<open>
  C9 as stated fails: nothing detects a member that is true for two variants of a
  component. \<open>set_features_states\<close> on an ensemble whose member \<open>X\<close> is marked for
  \<open>R1_0\<close> and \<open>R1_1\<close> returns normally and keeps the row.
\<close>

theorem two_variants_accepted_counterexample:
  "\<not> states_exclusive ensemble_two_variants
   \<and> set_features_states ensemble_two_variants [modelB, modelC] = Inr ensemble_two_variants_BC
   \<and> \<not> states_exclusive ensemble_two_variants_BC"
proof (intro conjI)
  show "\<not> states_exclusive ensemble_two_variants"
    by (simp add: states_exclusive_def ensemble_two_variants_def true_features_def)
  show "set_features_states ensemble_two_variants [modelB, modelC] = Inr ensemble_two_variants_BC"
    by (simp add: eval_defs ensemble_two_variants_def ensemble_two_variants_BC_def list_ex_iff)
  show "\<not> states_exclusive ensemble_two_variants_BC"
    by (simp add: states_exclusive_def ensemble_two_variants_BC_def true_features_def)
qed

subsection \<open>The base model of a constructed ensemble\<close>

text \<open>
  With cobra's models, whose iteration raises, the iterative constructor returns an
  ensemble only for a list of one model, which is then the base model.
\<close>

lemma update_with_features_fails:
  "fst (update_features_states cobra_iter old ml) = None \<Longrightarrow> features old = []"
  by (cases "features old")
     (auto simp: update_features_states_def cobra_iter_def split: sum.splits pyobj.splits)

lemma set_features_states_nonempty:
  assumes fresh: "features e = []" "states e = empty_frame"
    and len: "2 \<le> length ms"
    and res: "set_features_states e ms = Inr e'"
  shows "features e' \<noteq> []"
proof -
  from res len obtain rl where l: "set_features_loop rl e ms = Inr e'"
    by (auto simp: set_features_states_def split: sum.splits)
  from len obtain m rest where ms: "ms = m # rest" by (cases ms) auto
  from l ms obtain e1 where s: "set_features_step rl e m = Inr e1"
    and l1: "set_features_loop rl e1 rest = Inr e'"
    by (auto split: sum.splits)
  from step_first_consistent [OF fresh s]
  have "consistent rl [m] e1" "features e1 \<noteq> []" by auto
  from loop_consistent [OF l1 this(2,1)] show ?thesis by simp
qed

lemma construct_concurrent_nonempty:
  assumes "2 \<le> length ms" "construct_concurrent base_id (Some ms) = Inr new"
  shows "features new \<noteq> []"
proof -
  have "ms \<noteq> []" using assms(1) by auto
  then obtain b where
    "set_features_states \<lparr>ens_id = base_id, base_model = CobraModel b, features = [],
          states = empty_frame\<rparr> ms = Inr new"
    using assms(2) by (auto simp: construct_concurrent_def Let_def split: sum.splits)
  then show ?thesis
    by (rule set_features_states_nonempty [rotated 3]) (simp_all add: assms(1))
qed

lemma construct_concurrent_single:
  "construct_concurrent base_id (Some [m]) = Inr new \<Longrightarrow> base_model new = m"
  by (auto simp: construct_concurrent_def set_features_states_def Let_def split: sum.splits)

lemma iterative_single_model:
  assumes ne: "ml \<noteq> []"
    and res: "Ensemble_init cobra_iter base_id (Some ml) ''iterative'' join_size = Inr e"
  shows "ml = [base_model e]"
proof -
  let ?self = "\<lparr>ens_id = base_id, base_model = empty_model (base_id @ ''_base_model''),
                 features = [], states = empty_frame\<rparr>"
  let ?steps = "length ml div join_size"
  let ?rem = "length ml mod join_size"
  from res ne obtain self1 where
    s1: "set_features_states ?self (slice ml 0 join_size) = Inr self1"
    and js: "join_size \<noteq> 0"
    by (auto simp: Ensemble_init_def Let_def split: sum.splits if_splits)
  from res ne s1 js obtain self2 where
    s2: "iterative_loop cobra_iter ml join_size [0..<?steps] self1 = Inr self2"
    and fin: "if ?rem > 0
              then update_features_states cobra_iter self2 (drop (length ml - ?rem) ml) = (None, e)
              else e = self2"
    by (auto simp: Ensemble_init_def Let_def split: sum.splits if_splits prod.splits option.splits)
  have sl: "slice ml 0 join_size = take join_size ml" by (simp add: slice_def)
  have f1: "features self1 = []"
  proof (cases "?steps = 0")
    case True
    then have "?rem > 0" "self2 = self1" using s2 ne js
      by (auto simp: div_eq_0_iff)
    then have "fst (update_features_states cobra_iter self1 (drop (length ml - ?rem) ml)) = None"
      using fin by simp
    then show ?thesis by (rule update_with_features_fails)
  next
    case False
    then have "[0..<?steps] = 0 # [1..<?steps]" by (simp add: upt_rec)
    then have "fst (update_features_states cobra_iter self1
                  (slice ml ((0 + 1) * join_size) (0 + 2 * join_size))) = None"
      using s2 by (auto simp: Let_def split: prod.splits option.splits)
    then show ?thesis by (rule update_with_features_fails)
  qed
  have l1: "length (take join_size ml) = 1"
  proof (rule ccontr)
    assume "length (take join_size ml) \<noteq> 1"
    then have "2 \<le> length (take join_size ml)" using ne js by (cases ml) auto
    from set_features_states_nonempty [OF _ _ this s1 [unfolded sl]] f1 show False by simp
  qed
  then obtain m where tk: "take join_size ml = [m]" by (cases "take join_size ml") auto
  have self1: "self1 = ?self\<lparr>features := [], states := empty_frame, base_model := m\<rparr>"
    using s1 by (simp add: sl tk set_features_states_def)
  have hd: "ml = m # tl ml" using tk ne js by (cases ml; cases join_size) auto
  show ?thesis
  proof (cases "?steps = 0")
    case True
    then have lt: "length ml < join_size" using js by (simp add: div_eq_0_iff)
    then have ml: "ml = [m]" using tk by simp
    have "?rem > 0" "self2 = self1" using s2 True ml lt by auto
    then have u: "update_features_states cobra_iter self1 [m] = (None, e)"
      using fin ml lt by simp
    obtain x where "construct_concurrent base_id (Some [m, m]) = Inl x"
      using construct_twice [of base_id m] by (auto simp: isl_def)
    then show ?thesis using u self1 by (simp add: update_features_states_def)
  next
    case False
    then have "join_size \<le> length ml" using js by (simp add: div_eq_0_iff not_less)
    then have j1: "join_size = 1" using l1 js by (simp add: min_def split: if_splits)
    have st: "[0..<?steps] = 0 # [Suc 0..<length ml]" using False j1 by (simp add: upt_rec)
    let ?g = "slice ml (Suc 0) (Suc (Suc 0))"
    from s2 obtain s' where u0: "update_features_states cobra_iter self1 ?g = (None, s')"
      and rest: "iterative_loop cobra_iter ml join_size [Suc 0..<length ml] s' = Inr self2"
      unfolding st using j1 by (auto simp: Let_def split: prod.splits option.splits)
    from u0 obtain new where cn: "construct_concurrent base_id (Some (m # ?g)) = Inr new"
      and s': "s' = self1\<lparr>base_model := base_model new, features := features new,
                    states := states new\<rparr>"
      using self1 by (auto simp: update_features_states_def split: sum.splits)
    show ?thesis
    proof (cases "tl ml")
      case Nil
      then have ml: "ml = [m]" using hd by simp
      then have g: "?g = []" by (simp add: slice_def)
      have "self2 = s'" using rest ml by simp
      moreover have "e = self2" using fin j1 by simp
      moreover have "base_model new = m" using cn g by (simp add: construct_concurrent_single)
      ultimately show ?thesis using s' ml by simp
    next
      case (Cons m2 rest')
      then have ml: "ml = m # m2 # rest'" using hd by simp
      then have g: "?g = [m2]" by (simp add: slice_def)
      have "features new \<noteq> []"
        using construct_concurrent_nonempty [of "[m, m2]" base_id new] cn g by simp
      then have fs: "features s' \<noteq> []" using s' by simp
      have "[Suc 0..<length ml] = Suc 0 # [Suc (Suc 0)..<length ml]" using ml by (simp add: upt_rec)
      then have "fst (update_features_states cobra_iter s'
                   (slice ml ((Suc 0 + 1) * join_size) (Suc 0 + 2 * join_size))) = None"
        using rest by (auto simp: Let_def split: prod.splits option.splits)
      then show ?thesis using update_with_features_fails fs by blast
    qed
  qed
qed

text \<open>
  C5. For a list of well-formed models \<open>_create_base_model\<close> returns a base whose
  reaction identifiers are exactly those that occur in some model of the list; and
  whenever the constructor returns an ensemble for a non-empty list (with its
  default join method, or with the iterative one on cobra's models), the reaction
  identifiers of its base model are exactly those that occur in some input model.
\<close>

theorem base_model_is_union:
  "((\<forall>m\<in>set model_list. well_formed m) \<longrightarrow>
      (\<exists>b. create_base_model model_list base_id = Inr b
           \<and> set (map rxn_id (reactions b)) = (\<Union>m\<in>set model_list. reaction_ids m)))
   \<and> (model_list \<noteq> [] \<and>
        Ensemble_init model_iter base_id (Some model_list) ''concurrent'' join_size = Inr e \<longrightarrow>
        reaction_ids (base_model e) = (\<Union>m\<in>set model_list. reaction_ids m))
   \<and> (model_list \<noteq> [] \<and>
        Ensemble_init cobra_iter base_id (Some model_list) ''iterative'' join_size = Inr e \<longrightarrow>
        reaction_ids (base_model e) = (\<Union>m\<in>set model_list. reaction_ids m))"
proof (intro conjI impI)
  assume wf: "\<forall>m\<in>set model_list. well_formed m"
  then obtain b where b: "create_base_model model_list base_id = Inr b"
    using create_base_loop_succeeds [of "\<lparr>model_id = base_id, reactions = []\<rparr>" model_list]
    by (auto simp: create_base_model_def)
  then show "\<exists>b. create_base_model model_list base_id = Inr b
           \<and> set (map rxn_id (reactions b)) = (\<Union>m\<in>set model_list. reaction_ids m)"
    using create_base_loop_ids [of "\<lparr>model_id = base_id, reactions = []\<rparr>" model_list b]
    by (simp add: create_base_model_def)
next
  assume a: "model_list \<noteq> [] \<and>
        Ensemble_init model_iter base_id (Some model_list) ''concurrent'' join_size = Inr e"
  then obtain b where b: "create_base_model model_list (base_id @ ''_base_model'') = Inr b"
    and s: "set_features_states \<lparr>ens_id = base_id, base_model = CobraModel b,
               features = [], states = empty_frame\<rparr> model_list = Inr e"
    by (auto simp: Ensemble_init_def construct_concurrent_def Let_def split: sum.splits)
  have u: "set (map rxn_id (reactions b)) = (\<Union>m\<in>set model_list. reaction_ids m)"
    using create_base_loop_ids [of "\<lparr>model_id = base_id @ ''_base_model'', reactions = []\<rparr>" model_list b] b
    by (simp add: create_base_model_def)
  show "reaction_ids (base_model e) = (\<Union>m\<in>set model_list. reaction_ids m)"
  proof (cases "length model_list = 1")
    case True
    then obtain m where m: "model_list = [m]" by (cases model_list) auto
    then show ?thesis using s by (auto simp: set_features_states_def)
  next
    case False
    then have "base_model e = CobraModel b"
      using s by (auto simp: set_features_states_def split: sum.splits dest!: set_features_loop_base)
    then show ?thesis using u by (simp add: reaction_ids_def)
  qed
next
  assume a: "model_list \<noteq> [] \<and>
        Ensemble_init cobra_iter base_id (Some model_list) ''iterative'' join_size = Inr e"
  then have "model_list = [base_model e]" using iterative_single_model by blast
  then have "(\<Union>m\<in>set model_list. reaction_ids m) = (\<Union>m\<in>set [base_model e]. reaction_ids m)"
    by simp
  then show "reaction_ids (base_model e) = (\<Union>m\<in>set model_list. reaction_ids m)" by simp
qed

lemma iterative_A:
  "Ensemble_init cobra_iter ''ens'' (Some [modelA]) ''iterative'' 1 = Inr ensemble_A"
  by (simp add: Ensemble_init_def set_features_states_def slice_def update_features_states_def
        construct_concurrent_def create_base_model_def add_reactions_def modelA_def
        single_reaction_model_def ensemble_A_def Let_def empty_model_def)

theorem base_model_is_union_witness:
  "(\<exists>b. create_base_model [modelA, modelB] ''ens'' = Inr b
        \<and> set (map rxn_id (reactions b)) = {''R1'', ''R2''})
   \<and> Ensemble_init cobra_iter ''ens'' (Some [modelA, modelB]) ''concurrent'' 1 = Inr ensemble_AB
   \<and> reaction_ids (base_model ensemble_AB) = {''R1'', ''R2''}
   \<and> Ensemble_init cobra_iter ''ens'' (Some [modelA]) ''iterative'' 1 = Inr ensemble_A
   \<and> reaction_ids (base_model ensemble_A) = {''R1''}"
  using base_model_is_union [of "[modelA, modelB]" "''ens''" cobra_iter 1 ensemble_AB]
    base_model_is_union [of "[modelA]" "''ens''" cobra_iter 1 ensemble_A] construct_AB iterative_A
  by (auto simp: Ensemble_init_def well_formed_def reaction_ids_def modelA_def modelB_def
        single_reaction_model_def)

subsection \<open>Construction from a list with an element that has no reactions\<close>

lemma create_base_loop_fails:
  "NotAModel \<in> set ml \<Longrightarrow> isl (create_base_loop b ml)"
proof (induction ml arbitrary: b)
  case Nil
  then show ?case by simp
next
  case (Cons m ml)
  show ?case
  proof (cases m)
    case NotAModel
    then show ?thesis by simp
  next
    case (CobraModel c)
    then have "NotAModel \<in> set ml" using Cons.prems by auto
    then show ?thesis using CobraModel Cons.IH by (simp add: Let_def split: sum.splits)
  qed
qed

lemma construct_not_a_model_alone:
  "isl (construct_concurrent base_id (Some (NotAModel # ml)))"
  by (simp add: construct_concurrent_def create_base_model_def)

lemma iterative_not_a_model_alone:
  "isl (Ensemble_init model_iter base_id (Some [NotAModel]) ''iterative'' join_size)"
proof -
  let ?s = "\<lparr>ens_id = base_id, base_model = NotAModel, features = [], states = empty_frame\<rparr>"
  have u: "\<exists>x. update_features_states model_iter ?s ml = (Some x, ?s)" for ml
  proof -
    obtain x where "construct_concurrent base_id (Some (NotAModel # ml)) = Inl x"
      using construct_not_a_model_alone [of base_id ml] by (auto simp: isl_def)
    then show ?thesis by (simp add: update_features_states_def)
  qed
  consider "join_size = 0" | "join_size = 1" | "join_size \<ge> 2" by linarith
  then show ?thesis
  proof cases
    case 1
    then show ?thesis
      by (simp add: Ensemble_init_def Let_def slice_def set_features_states_def)
  next
    case 2
    obtain x where "update_features_states model_iter ?s (slice [NotAModel] (Suc 0) (Suc (Suc 0)))
                      = (Some x, ?s)"
      using u by blast
    then show ?thesis
      using 2 by (simp add: Ensemble_init_def Let_def set_features_states_def slice_def)
  next
    case 3
    obtain x where "update_features_states model_iter ?s [NotAModel] = (Some x, ?s)"
      using u by blast
    then show ?thesis
      using 3 by (simp add: Ensemble_init_def Let_def set_features_states_def slice_def)
  qed
qed

text \<open>
  C8, as the code has it. A model list that contains an object without the attribute
  \<open>reactions\<close> makes the constructor fail before any ensemble is returned: with the
  default join method it raises, and when the models of the list are well formed
  the exception is \<open>AttributeError\<close>; with the iterative join method on cobra's models
  it raises as well.
\<close>

theorem not_a_model_fails:
  "NotAModel \<in> set model_list \<Longrightarrow>
     isl (Ensemble_init model_iter base_id (Some model_list) ''concurrent'' join_size)
     \<and> ((\<forall>c. CobraModel c \<in> set model_list \<longrightarrow> distinct (map rxn_id (reactions c))) \<longrightarrow>
          Ensemble_init model_iter base_id (Some model_list) ''concurrent'' join_size
            = Inl AttributeError)
     \<and> isl (Ensemble_init cobra_iter base_id (Some model_list) ''iterative'' join_size)"
proof (intro conjI impI)
  assume a: "NotAModel \<in> set model_list"
  then have ne: "model_list \<noteq> []" by auto
  have "isl (create_base_model model_list (base_id @ ''_base_model''))"
    using create_base_loop_fails [OF a] by (simp add: create_base_model_def)
  then show "isl (Ensemble_init model_iter base_id (Some model_list) ''concurrent'' join_size)"
    using ne by (auto simp: Ensemble_init_def construct_concurrent_def Let_def isl_def)
  show "isl (Ensemble_init cobra_iter base_id (Some model_list) ''iterative'' join_size)"
  proof (rule ccontr)
    assume "\<not> isl (Ensemble_init cobra_iter base_id (Some model_list) ''iterative'' join_size)"
    then obtain e where
      e: "Ensemble_init cobra_iter base_id (Some model_list) ''iterative'' join_size = Inr e"
      by (cases "Ensemble_init cobra_iter base_id (Some model_list) ''iterative'' join_size") auto
    from iterative_single_model [OF ne e] a have "model_list = [NotAModel]" by auto
    then show False
      using e iterative_not_a_model_alone [of cobra_iter base_id join_size] by simp
  qed
next
  assume a: "NotAModel \<in> set model_list"
    and d: "\<forall>c. CobraModel c \<in> set model_list \<longrightarrow> distinct (map rxn_id (reactions c))"
  have "create_base_model model_list (base_id @ ''_base_model'') = Inl AttributeError"
    using create_base_loop_not_a_model [OF a _ d] by (simp add: create_base_model_def)
  moreover have "model_list \<noteq> []" using a by auto
  ultimately show "Ensemble_init model_iter base_id (Some model_list) ''concurrent'' join_size
            = Inl AttributeError"
    by (simp add: Ensemble_init_def construct_concurrent_def Let_def)
qed

theorem not_a_model_fails_witness:
  "NotAModel \<in> set [modelA, NotAModel, modelB]
   \<and> Ensemble_init cobra_iter ''ens'' (Some [modelA, NotAModel, modelB]) ''concurrent'' 1
       = Inl AttributeError
   \<and> isl (Ensemble_init cobra_iter ''ens'' (Some [modelA, NotAModel, modelB]) ''iterative'' 1)"
  using not_a_model_fails [of "[modelA, NotAModel, modelB]" cobra_iter "''ens''" 1]
  by (simp add: modelA_def modelB_def single_reaction_model_def)

text \<open>
  C8 as stated fails: the error for \<open>[NotAModel]\<close> is Python's \<open>AttributeError\<close> (the
  code has no configuration error), and the iterative constructor raises \<open>TypeError\<close>
  on \<open>[modelA, modelB, modelC, NotAModel]\<close> before it looks at the last element.
\<close>

theorem not_a_model_counterexample:
  "Ensemble_init cobra_iter ''ens'' (Some [NotAModel]) ''concurrent'' 1 = Inl AttributeError
   \<and> Ensemble_init cobra_iter ''ens'' (Some [modelA, modelB, modelC, NotAModel]) ''iterative'' 1
       = Inl TypeError"
proof
  show "Ensemble_init cobra_iter ''ens'' (Some [NotAModel]) ''concurrent'' 1 = Inl AttributeError"
    by (simp add: eval_defs)
  let ?s = "\<lparr>ens_id = ''ens'', base_model = modelA, features = [], states = empty_frame\<rparr>"
  have up: "[0..<4::nat] = [0, 1, 2, 3]" by (simp add: upt_rec)
  have s1: "update_features_states cobra_iter ?s [modelB] = (None, ensemble_AB)"
    using construct_AB by (simp add: update_features_states_def ensemble_AB_def)
  have s2: "update_features_states cobra_iter ensemble_AB [modelC] = (Some TypeError, ensemble_AB)"
    by (simp add: update_features_states_def eval_defs ensemble_AB_def cobra_iter_def)
  show "Ensemble_init cobra_iter ''ens'' (Some [modelA, modelB, modelC, NotAModel]) ''iterative'' 1
       = Inl TypeError"
    by (simp add: Ensemble_init_def set_features_states_def slice_def up s1 s2 Let_def empty_model_def)
qed

end
